theory Spec2Isabelle
  imports Complex_Main
begin

section \<open>Student records\<close>

text \<open>
  The C++ type \<open>float\<close> is modelled by the rational number a finite single-precision
  value denotes; where the program computes with floats (the running total of
  \<open>showStatistics\<close>, the conversion of a decimal token) the rounding to single
  precision is written out (\<open>float_round\<close> below). Comparisons of floats are exact.
  The type \<open>int\<close> of \<open>rollNo\<close> is modelled by the integers: the program never does
  arithmetic on a roll number, and the range check of the extraction \<open>stream >> int\<close>
  is written out in \<open>extract_int\<close>.
\<close>

type_synonym cfloat = rat

record Student =
  name :: string
  rollNo :: int
  marks :: cfloat

text \<open>
  A \<open>throw StudentException(msg)\<close> is the value \<open>Inl msg\<close>; normal completion is
  \<open>Inr\<close>.
\<close>

definition Student_ctor :: "string \<Rightarrow> int \<Rightarrow> cfloat \<Rightarrow> string + Student" where
  "Student_ctor n r m =
     (if r < 0 then Inl ''Roll number cannot be negative''
      else if m < 0 \<or> m > 100 then Inl ''Marks must be between 0 and 100''
      else Inr \<lparr>name = n, rollNo = r, marks = m\<rparr>)"

definition setName :: "string \<Rightarrow> Student \<Rightarrow> string + Student" where
  "setName n s = (if n = [] then Inl ''Name cannot be empty'' else Inr (s\<lparr>name := n\<rparr>))"

definition setRollNo :: "int \<Rightarrow> Student \<Rightarrow> string + Student" where
  "setRollNo r s =
     (if r < 0 then Inl ''Roll number cannot be negative'' else Inr (s\<lparr>rollNo := r\<rparr>))"

definition setMarks :: "cfloat \<Rightarrow> Student \<Rightarrow> string + Student" where
  "setMarks m s =
     (if m < 0 \<or> m > 100 then Inl ''Marks must be between 0 and 100''
      else Inr (s\<lparr>marks := m\<rparr>))"

section \<open>The record store\<close>

text \<open>
  \<open>students\<close> is a \<open>vector<Student>\<close>: a list in insertion order. The loop of
  \<open>findStudentIndex\<close> walks the vector from index 0; \<open>findStudentIndex_from i\<close> is
  the loop at index \<open>i\<close>, its list argument the elements from \<open>i\<close> on. The result
  is the C++ \<open>int\<close>, \<open>-1\<close> when no element matches (stores are taken to hold
  fewer than \<open>2^31\<close> records, so that the index does not overflow).
\<close>

fun findStudentIndex_from :: "nat \<Rightarrow> Student list \<Rightarrow> int \<Rightarrow> int" where
  "findStudentIndex_from i [] r = - 1"
| "findStudentIndex_from i (s # rest) r =
     (if rollNo s = r then int i else findStudentIndex_from (Suc i) rest r)"

definition findStudentIndex :: "Student list \<Rightarrow> int \<Rightarrow> int" where
  "findStudentIndex students r = findStudentIndex_from 0 students r"

text \<open>
  The menu operations read the console. A read of a line (\<open>getline(cin, name)\<close>) is
  modelled by the string it returns; a read of a number (\<open>cin >> rollNo\<close>,
  \<open>cin >> marks\<close>) by \<open>Some\<close> of the value extracted, or \<open>None\<close> when the
  extraction fails (\<open>!(cin >> x)\<close>). Each operation is a \<open>try\<close> block whose handler
  prints \<open>Error: \<close> and the message; the functions \<open>_try\<close> are the blocks: they
  return the exception that left the block, if any, and the vector as the block
  left it. The operations return the line written to \<open>cout\<close> and the vector.
\<close>

definition addStudent_try ::
  "string \<Rightarrow> int option \<Rightarrow> cfloat option \<Rightarrow> Student list \<Rightarrow> string option \<times> Student list"
where
  "addStudent_try nm rin mkin students =
     (if nm = [] then (Some ''Name cannot be empty'', students)
      else case rin of
        None \<Rightarrow> (Some ''Invalid input for roll number'', students)
      | Some r \<Rightarrow>
          if r < 0 then (Some ''Roll number cannot be negative'', students)
          else case mkin of
            None \<Rightarrow> (Some ''Invalid input for marks'', students)
          | Some m \<Rightarrow>
              if m < 0 \<or> m > 100 then (Some ''Marks must be between 0-100'', students)
              else if findStudentIndex students r \<noteq> - 1
                then (Some ''Student with this Roll No already exists'', students)
              else case Student_ctor nm r m of
                Inl e \<Rightarrow> (Some e, students)
              | Inr newStudent \<Rightarrow> (None, students @ [newStudent]))"

definition addStudent ::
  "string \<Rightarrow> int option \<Rightarrow> cfloat option \<Rightarrow> Student list \<Rightarrow> string \<times> Student list"
where
  "addStudent nm rin mkin students =
     (case addStudent_try nm rin mkin students of
        (Some e, students') \<Rightarrow> (''Error: '' @ e, students')
      | (None, students') \<Rightarrow> (''Student added successfully!'', students'))"

text \<open>
  \<open>searchStudent\<close> prints the record found (\<open>Inr\<close>) or the error line (\<open>Inl\<close>).
\<close>

definition searchStudent :: "int option \<Rightarrow> Student list \<Rightarrow> string + Student" where
  "searchStudent rin students =
     (case rin of
        None \<Rightarrow> Inl ''Error: Invalid input for roll number''
      | Some r \<Rightarrow>
          let index = findStudentIndex students r in
          if index = - 1 then Inl ''Error: Student not found''
          else Inr (students ! nat index))"

text \<open>
  \<open>updateStudent\<close> changes the element in place, first its name, then its marks:
  an exception of \<open>setMarks\<close> would leave the new name in the vector.
\<close>

definition updateStudent_try ::
  "int option \<Rightarrow> string \<Rightarrow> cfloat option \<Rightarrow> Student list \<Rightarrow> string option \<times> Student list"
where
  "updateStudent_try rin nm mkin students =
     (case rin of
        None \<Rightarrow> (Some ''Invalid input for roll number'', students)
      | Some r \<Rightarrow>
          let index = findStudentIndex students r in
          if index = - 1 then (Some ''Student not found'', students)
          else if nm = [] then (Some ''Name cannot be empty'', students)
          else case mkin of
            None \<Rightarrow> (Some ''Invalid input for marks'', students)
          | Some m \<Rightarrow>
              if m < 0 \<or> m > 100 then (Some ''Marks must be between 0-100'', students)
              else case setName nm (students ! nat index) of
                Inl e \<Rightarrow> (Some e, students)
              | Inr s1 \<Rightarrow>
                  let students1 = students[nat index := s1] in
                  case setMarks m (students1 ! nat index) of
                    Inl e \<Rightarrow> (Some e, students1)
                  | Inr s2 \<Rightarrow> (None, students1[nat index := s2]))"

definition updateStudent ::
  "int option \<Rightarrow> string \<Rightarrow> cfloat option \<Rightarrow> Student list \<Rightarrow> string \<times> Student list"
where
  "updateStudent rin nm mkin students =
     (case updateStudent_try rin nm mkin students of
        (Some e, students') \<Rightarrow> (''Error: '' @ e, students')
      | (None, students') \<Rightarrow> (''Student details updated successfully!'', students'))"

text \<open>\<open>students.erase(students.begin() + index)\<close> removes the element at \<open>index\<close>.\<close>

definition erase :: "'a list \<Rightarrow> nat \<Rightarrow> 'a list" where
  "erase xs i = take i xs @ drop (Suc i) xs"

definition deleteStudent_try ::
  "int option \<Rightarrow> Student list \<Rightarrow> string option \<times> Student list"
where
  "deleteStudent_try rin students =
     (case rin of
        None \<Rightarrow> (Some ''Invalid input for roll number'', students)
      | Some r \<Rightarrow>
          let index = findStudentIndex students r in
          if index = - 1 then (Some ''Student not found'', students)
          else (None, erase students (nat index)))"

definition deleteStudent :: "int option \<Rightarrow> Student list \<Rightarrow> string \<times> Student list" where
  "deleteStudent rin students =
     (case deleteStudent_try rin students of
        (Some e, students') \<Rightarrow> (''Error: '' @ e, students')
      | (None, students') \<Rightarrow> (''Student deleted successfully!'', students'))"

text \<open>A line of \<open>cout\<close> reports an error when it starts with \<open>Error: \<close>.\<close>

definition reports_error :: "string \<Rightarrow> bool" where
  "reports_error line = (take 7 line = ''Error: '')"

section \<open>Single-precision values and their decimal text\<close>

text \<open>
  \<open>float_round\<close> rounds a rational to 24 significant bits as IEEE 754 binary32
  does (least exponent \<open>-126\<close>, ties to the even significand), with no bound on the
  exponent above: a result of magnitude \<open>2^128\<close> or more is an overflow, which
  \<open>extract_float\<close> reports as a failure and \<open>to_float\<close> turns into an infinity.
  The finite floats are the values \<open>x\<close> with \<open>float_round x = x\<close> and magnitude below
  \<open>2^128\<close> (\<open>representable\<close>). A negative zero is not told from zero.
\<close>

function idigits :: "int \<Rightarrow> int \<Rightarrow> int" where
  \<comment> \<open>the number of digits of \<open>n\<close> in base \<open>b\<close>\<close>
  "idigits b n = (if 0 < n \<and> 1 < b then idigits b (n div b) + 1 else 0)"
  by pat_completeness auto
termination
  by (relation "measure (\<lambda>(b, n). nat n)") (auto simp: int_div_less_self)

definition ilog :: "int \<Rightarrow> rat \<Rightarrow> int" where
  \<comment> \<open>the integer \<open>e\<close> with \<open>b^e \<le> a < b^(e+1)\<close>, for \<open>a > 0\<close> and \<open>b > 1\<close>\<close>
  "ilog b a =
     (let (p, q) = quotient_of a;
          d = idigits b p - idigits b q
      in if of_int b powi d \<le> a then d else d - 1)"

definition round_half_even :: "rat \<Rightarrow> int" where
  "round_half_even q =
     (let f = \<lfloor>q\<rfloor>; r = q - of_int f
      in if r < 1 / 2 then f else if 1 / 2 < r then f + 1 else if even f then f else f + 1)"

definition float_round :: "rat \<Rightarrow> cfloat" where
  "float_round x =
     (if x = 0 then 0
      else let a = \<bar>x\<bar>; e = max (ilog 2 a) (- 126); u = 2 powi (e - 23)
           in sgn x * of_int (round_half_even (a / u)) * u)"

definition FLT_MAX :: cfloat where
  "FLT_MAX = (2 ^ 24 - 1) * 2 ^ 104"

definition float_overflow :: "cfloat \<Rightarrow> bool" where
  "float_overflow x = (2 ^ 128 \<le> \<bar>x\<bar>)"

definition INT_MAX :: int where "INT_MAX = 2147483647"

definition INT_MIN :: int where "INT_MIN = - 2147483648"

text \<open>
  Decimal digits. \<open>show_nat\<close> and \<open>show_int\<close> are what \<open>stream << n\<close> writes for an
  integer with the default flags.
\<close>

definition isdigit :: "char \<Rightarrow> bool" where
  "isdigit c = (c \<in> set ''0123456789'')"

definition digit_val :: "char \<Rightarrow> int" where
  "digit_val c = of_char c - 48"

definition digits_val :: "string \<Rightarrow> int" where
  "digits_val ds = foldl (\<lambda>n c. 10 * n + digit_val c) 0 ds"

definition digit_char :: "int \<Rightarrow> char" where
  "digit_char d = char_of (48 + d)"

function show_digits :: "int \<Rightarrow> string" where
  "show_digits n =
     (if n < 10 then [digit_char n] else show_digits (n div 10) @ [digit_char (n mod 10)])"
  by pat_completeness auto
termination
  by (relation "measure nat") (auto simp: int_div_less_self)

definition show_nat :: "nat \<Rightarrow> string" where
  "show_nat n = show_digits (int n)"

definition show_int :: "int \<Rightarrow> string" where
  "show_int i = (if i < 0 then CHR ''-'' # show_digits (- i) else show_digits i)"

text \<open>
  \<open>show_float\<close> is what \<open>stream << x\<close> writes for a float with the default flags:
  the conversion \<open>%g\<close> of \<open>printf\<close> with precision 6. The value is rounded to six
  significant digits (ties to even, on the exact value); with \<open>X\<close> the decimal
  exponent of the rounded value, the fixed style is used when \<open>-4 \<le> X < 6\<close> and the
  exponent style otherwise, and trailing zeros of the fraction are removed. The sign
  of a zero is not modelled.
\<close>

definition strip_zeros :: "string \<Rightarrow> string" where
  "strip_zeros ds = rev (dropWhile (\<lambda>c. c = CHR ''0'') (rev ds))"

definition with_point :: "string \<Rightarrow> string \<Rightarrow> string" where
  "with_point ip fp = (if fp = [] then ip else ip @ CHR ''.'' # fp)"

definition show_float :: "cfloat \<Rightarrow> string" where
  "show_float x =
     (if x = 0 then ''0''
      else
        let a = \<bar>x\<bar>;
            X0 = ilog 10 a;
            d0 = round_half_even (a / 10 powi (X0 - 5));
            X = (if 1000000 \<le> d0 then X0 + 1 else X0);
            ds = show_digits (if 1000000 \<le> d0 then d0 div 10 else d0);
            body =
              (if X < - 4 \<or> 6 \<le> X then
                 with_point [hd ds] (strip_zeros (tl ds))
                   @ CHR ''e'' # (if X < 0 then CHR ''-'' else CHR ''+'')
                   # (if \<bar>X\<bar> < 10 then ''0'' else []) @ show_digits \<bar>X\<bar>
               else if 0 \<le> X then
                 with_point (take (nat (X + 1)) ds) (strip_zeros (drop (nat (X + 1)) ds))
               else
                 ''0.'' @ replicate (nat (- X - 1)) CHR ''0'' @ strip_zeros ds)
        in if x < 0 then CHR ''-'' # body else body)"

section \<open>Input streams\<close>

text \<open>
  An input stream is the characters not yet read and the state bits of \<open>basic_ios\<close>.
  The operations follow the C++ standard library (the "C" locale, the grammar of
  numbers of the GNU implementation); a device error is not modelled, so \<open>badbit\<close>
  is never set by them.
\<close>

record istream =
  buf :: string
  eofbit :: bool
  failbit :: bool
  badbit :: bool

definition good :: "istream \<Rightarrow> bool" where
  "good st = (\<not> eofbit st \<and> \<not> failbit st \<and> \<not> badbit st)"

definition fail :: "istream \<Rightarrow> bool" where
  "fail st = (failbit st \<or> badbit st)"

definition isspace :: "char \<Rightarrow> bool" where
  "isspace c = (c \<in> set [CHR '' '', CHR 0x09, CHR 0x0A, CHR 0x0B, CHR 0x0C, CHR 0x0D])"

text \<open>
  The sentry of every input function: it fails, setting \<open>failbit\<close>, on a stream that
  is not good; a formatted input (\<open>noskipws = False\<close>) first skips white space and
  fails with \<open>eofbit\<close> and \<open>failbit\<close> when that reaches the end.
\<close>

definition sentry :: "bool \<Rightarrow> istream \<Rightarrow> bool \<times> istream" where
  "sentry noskipws st =
     (if \<not> good st then (False, st\<lparr>failbit := True\<rparr>)
      else if noskipws then (True, st)
      else
        let rest = dropWhile isspace (buf st)
        in if rest = [] then (False, st\<lparr>buf := [], eofbit := True, failbit := True\<rparr>)
           else (True, st\<lparr>buf := rest\<rparr>))"

text \<open>
  \<open>getline(stream, str)\<close>: the characters up to the next newline, which is read and
  dropped. Reaching the end sets \<open>eofbit\<close>; reading no character at all sets
  \<open>failbit\<close>. When the sentry fails \<open>str\<close> is left as it was.
\<close>

definition getline :: "istream \<Rightarrow> string \<Rightarrow> istream \<times> string" where
  "getline st str =
     (case sentry True st of
        (False, st1) \<Rightarrow> (st1, str)
      | (True, st1) \<Rightarrow>
          let line = takeWhile (\<lambda>c. c \<noteq> CHR 0x0A) (buf st1);
              rest = dropWhile (\<lambda>c. c \<noteq> CHR 0x0A) (buf st1)
          in if rest = [] then (st1\<lparr>buf := [], eofbit := True, failbit := (line = [])\<rparr>, line)
             else (st1\<lparr>buf := tl rest\<rparr>, line))"

text \<open>\<open>stream.ignore()\<close>: reads and drops one character; at the end it sets \<open>eofbit\<close>.\<close>

definition ignore :: "istream \<Rightarrow> istream" where
  "ignore st =
     (case sentry True st of
        (False, st1) \<Rightarrow> st1
      | (True, st1) \<Rightarrow>
          (case buf st1 of [] \<Rightarrow> st1\<lparr>eofbit := True\<rparr> | c # rest \<Rightarrow> st1\<lparr>buf := rest\<rparr>))"

text \<open>
  The scanners of the number tokens. Each returns what it read and the characters
  left. \<open>take_sign\<close> reads an optional sign, \<open>scan_digits\<close> the longest run of decimal
  digits, \<open>scan_fraction\<close> a decimal point with the digits after it, and
  \<open>scan_exponent\<close> an exponent (\<open>e\<close> or \<open>E\<close>, an optional sign, digits), which is
  read only when the mantissa had a digit.
\<close>

definition take_sign :: "string \<Rightarrow> char option \<times> string" where
  "take_sign cs =
     (case cs of
        [] \<Rightarrow> (None, [])
      | c # rest \<Rightarrow> if c = CHR ''+'' \<or> c = CHR ''-'' then (Some c, rest) else (None, cs))"

definition scan_digits :: "string \<Rightarrow> string \<times> string" where
  "scan_digits cs = (takeWhile isdigit cs, dropWhile isdigit cs)"

definition scan_fraction :: "string \<Rightarrow> string \<times> string" where
  "scan_fraction cs =
     (case cs of
        [] \<Rightarrow> ([], [])
      | c # rest \<Rightarrow> if c = CHR ''.'' then scan_digits rest else ([], cs))"

definition scan_exponent :: "bool \<Rightarrow> string \<Rightarrow> (char option \<times> string) option \<times> string" where
  "scan_exponent found_mantissa cs =
     (case cs of
        [] \<Rightarrow> (None, [])
      | c # rest \<Rightarrow>
          if found_mantissa \<and> (c = CHR ''e'' \<or> c = CHR ''E'') then
            (let (esgn, r1) = take_sign rest; (ed, r2) = scan_digits r1
             in (Some (esgn, ed), r2))
          else (None, cs))"

definition signed :: "char option \<Rightarrow> int \<Rightarrow> int" where
  "signed sg n = (if sg = Some CHR ''-'' then - n else n)"

text \<open>
  \<open>stream >> v\<close> for an \<open>int\<close>: after the sentry, an optional sign and the longest run
  of decimal digits. No digit is a failure and stores 0; a value outside the range of
  \<open>int\<close> is a failure and stores the nearest bound. \<open>eofbit\<close> is set when the token
  runs to the end of the stream. When the sentry fails \<open>v\<close> is left as it was.
\<close>

definition extract_int :: "istream \<Rightarrow> int \<Rightarrow> istream \<times> int" where
  "extract_int st v =
     (case sentry False st of
        (False, st1) \<Rightarrow> (st1, v)
      | (True, st1) \<Rightarrow>
          let (sg, r1) = take_sign (buf st1);
              (ds, r2) = scan_digits r1;
              n = signed sg (digits_val ds)
          in (st1\<lparr>buf := r2, eofbit := (r2 = []),
                   failbit := (ds = [] \<or> n < INT_MIN \<or> INT_MAX < n)\<rparr>,
              if ds = [] then 0
              else if n < INT_MIN then INT_MIN
              else if INT_MAX < n then INT_MAX
              else n))"

text \<open>
  \<open>stream >> v\<close> for a \<open>float\<close>: after the sentry, an optional sign, digits, a
  fraction and an exponent. The characters read are converted as \<open>strtof\<close> does: a
  token without a digit in the mantissa, or with an exponent letter and no exponent
  digit, is a failure and stores 0; an overflow is a failure and stores the largest
  finite value; otherwise the decimal value is rounded to single precision.
\<close>

type_synonym float_token = "char option \<times> string \<times> string \<times> (char option \<times> string) option"

definition scan_float :: "string \<Rightarrow> float_token \<times> string" where
  "scan_float cs =
     (let (sg, r1) = take_sign cs;
          (ip, r2) = scan_digits r1;
          (fp, r3) = scan_fraction r2;
          (ex, r4) = scan_exponent (ip \<noteq> [] \<or> fp \<noteq> []) r3
      in ((sg, ip, fp, ex), r4))"

fun float_token_valid :: "float_token \<Rightarrow> bool" where
  "float_token_valid (sg, ip, fp, None) = (ip \<noteq> [] \<or> fp \<noteq> [])"
| "float_token_valid (sg, ip, fp, Some (esgn, ed)) = ((ip \<noteq> [] \<or> fp \<noteq> []) \<and> ed \<noteq> [])"

fun float_token_exponent :: "(char option \<times> string) option \<Rightarrow> int" where
  "float_token_exponent None = 0"
| "float_token_exponent (Some (esgn, ed)) = signed esgn (digits_val ed)"

fun float_token_value :: "float_token \<Rightarrow> rat" where
  "float_token_value (sg, ip, fp, ex) =
     of_int (signed sg (digits_val (ip @ fp)))
       * 10 powi (float_token_exponent ex - int (length fp))"

definition extract_float :: "istream \<Rightarrow> cfloat \<Rightarrow> istream \<times> cfloat" where
  "extract_float st v =
     (case sentry False st of
        (False, st1) \<Rightarrow> (st1, v)
      | (True, st1) \<Rightarrow>
          let (tok, rest) = scan_float (buf st1);
              x = float_round (float_token_value tok)
          in (st1\<lparr>buf := rest, eofbit := (rest = []),
                   failbit := (\<not> float_token_valid tok \<or> float_overflow x)\<rparr>,
              if \<not> float_token_valid tok then 0
              else if float_overflow x then (if x < 0 then - FLT_MAX else FLT_MAX)
              else x))"

section \<open>Reading and writing the data file\<close>

text \<open>
  \<open>operator>>(ifstream&, Student&)\<close> assigns the fields of \<open>s\<close> one after the other
  and throws at the first extraction that fails; its handler closes the stream and
  throws \<open>Corrupted data in file\<close> whatever was thrown.
\<close>

definition read_Student_try :: "istream \<Rightarrow> Student \<Rightarrow> string + istream \<times> Student" where
  "read_Student_try ifs s =
     (let (ifs1, n) = getline ifs (name s) in
      if fail ifs1 then Inl ''Failed to read name from file''
      else
        let (ifs2, r) = extract_int ifs1 (rollNo s) in
        if fail ifs2 then Inl ''Failed to read roll number from file''
        else
          let (ifs3, m) = extract_float ifs2 (marks s) in
          if fail ifs3 then Inl ''Failed to read marks from file''
          else Inr (ignore ifs3, \<lparr>name = n, rollNo = r, marks = m\<rparr>))"

definition read_Student :: "istream \<Rightarrow> Student \<Rightarrow> string + istream \<times> Student" where
  "read_Student ifs s =
     (case read_Student_try ifs s of
        Inl e \<Rightarrow> Inl ''Corrupted data in file''
      | Inr res \<Rightarrow> Inr res)"

text \<open>\<open>operator<<(ofstream&, const Student&)\<close>: three lines.\<close>

definition write_Student :: "Student \<Rightarrow> string" where
  "write_Student s =
     name s @ [CHR 0x0A] @ show_int (rollNo s) @ [CHR 0x0A] @ show_float (marks s) @ [CHR 0x0A]"

definition ifstream :: "string \<Rightarrow> istream" where
  "ifstream contents = \<lparr>buf = contents, eofbit = False, failbit = False, badbit = False\<rparr>"

text \<open>
  Every input function leaves a suffix of the unread characters, and a \<open>getline\<close> that
  does not fail has read at least one character: the loop of \<open>loadFromFile\<close> ends.
\<close>

lemma sentry_length: "length (buf (snd (sentry noskipws st))) \<le> length (buf st)"
  by (simp add: sentry_def Let_def length_dropWhile_le)

lemma getline_length:
  "\<not> fail (fst (getline st str)) \<Longrightarrow> length (buf (fst (getline st str))) < length (buf st)"
proof (cases "good st")
  case False
  assume "\<not> fail (fst (getline st str))"
  with False show ?thesis by (simp add: getline_def sentry_def fail_def)
next
  case True
  let ?line = "takeWhile (\<lambda>c. c \<noteq> CHR 0x0A) (buf st)"
  let ?rest = "dropWhile (\<lambda>c. c \<noteq> CHR 0x0A) (buf st)"
  assume nf: "\<not> fail (fst (getline st str))"
  have split: "length (buf st) = length ?line + length ?rest"
    by (metis length_append takeWhile_dropWhile_id)
  show ?thesis
  proof (cases "?rest = []")
    case True
    with \<open>good st\<close> nf have "?line \<noteq> []"
      by (auto simp: getline_def sentry_def fail_def Let_def)
    with True \<open>good st\<close> split show ?thesis
      by (simp add: getline_def sentry_def Let_def)
  next
    case False
    then have "length (tl ?rest) < length ?rest" by simp
    with split have "length (tl ?rest) < length (buf st)" by linarith
    moreover have "buf (fst (getline st str)) = tl ?rest"
      using False \<open>good st\<close> by (auto simp: getline_def sentry_def Let_def)
    ultimately show ?thesis by (simp del: length_tl)
  qed
qed

text \<open>
  \<open>unread cs r\<close>: \<open>r\<close> is what is left of \<open>cs\<close> after reading characters none of which
  is a newline. Every scanner of a number token leaves such a rest.
\<close>

definition unread :: "string \<Rightarrow> string \<Rightarrow> bool" where
  "unread cs r = (\<exists>pre. cs = pre @ r \<and> CHR 0x0A \<notin> set pre)"

lemma unread_refl: "unread cs cs"
  by (simp add: unread_def)

lemma unread_trans: "unread cs r \<Longrightarrow> unread r r' \<Longrightarrow> unread cs r'"
  by (fastforce simp: unread_def)

lemma unread_Cons: "c \<noteq> CHR 0x0A \<Longrightarrow> unread (c # cs) cs"
  unfolding unread_def by (rule exI [of _ "[c]"]) simp

lemma unread_length: "unread cs r \<Longrightarrow> length r \<le> length cs"
  by (auto simp: unread_def)

lemma unread_take_sign: "unread cs (snd (take_sign cs))"
  by (auto simp: take_sign_def unread_refl unread_Cons split: list.splits)

lemma unread_scan_digits: "unread cs (snd (scan_digits cs))"
proof -
  have "cs = takeWhile isdigit cs @ dropWhile isdigit cs" by simp
  moreover have "CHR 0x0A \<notin> set (takeWhile isdigit cs)"
    by (auto dest!: set_takeWhileD simp: isdigit_def)
  ultimately show ?thesis
    unfolding unread_def scan_digits_def by (intro exI [of _ "takeWhile isdigit cs"]) simp
qed

lemma unread_scan_fraction: "unread cs (snd (scan_fraction cs))"
proof (cases cs)
  case Nil
  then show ?thesis by (simp add: scan_fraction_def unread_refl)
next
  case (Cons c rest)
  show ?thesis
  proof (cases "c = CHR ''.''")
    case True
    with Cons have "unread cs rest" by (simp add: unread_Cons)
    from unread_trans [OF this unread_scan_digits] Cons True show ?thesis
      by (simp add: scan_fraction_def)
  next
    case False
    with Cons show ?thesis by (simp add: scan_fraction_def unread_refl)
  qed
qed

lemma unread_scan_exponent: "unread cs (snd (scan_exponent found cs))"
proof (cases cs)
  case Nil
  then show ?thesis by (simp add: scan_exponent_def unread_refl)
next
  case (Cons c rest)
  show ?thesis
  proof (cases "found \<and> (c = CHR ''e'' \<or> c = CHR ''E'')")
    case True
    with Cons have "unread cs rest" by (auto simp: unread_Cons)
    from unread_trans [OF unread_trans [OF this unread_take_sign] unread_scan_digits]
    have "unread cs (snd (scan_digits (snd (take_sign rest))))" .
    with Cons True show ?thesis
      by (simp add: scan_exponent_def split_beta)
  next
    case False
    with Cons show ?thesis by (auto simp: scan_exponent_def unread_refl)
  qed
qed

lemma unread_scan_float: "unread cs (snd (scan_float cs))"
proof -
  define r1 where "r1 = snd (take_sign cs)"
  define r2 where "r2 = snd (scan_digits r1)"
  define r3 where "r3 = snd (scan_fraction r2)"
  define found where "found = (fst (scan_digits r1) \<noteq> [] \<or> fst (scan_fraction r2) \<noteq> [])"
  have "unread cs r1" unfolding r1_def by (rule unread_take_sign)
  moreover have "unread r1 r2" unfolding r2_def by (rule unread_scan_digits)
  moreover have "unread r2 r3" unfolding r3_def by (rule unread_scan_fraction)
  moreover have "unread r3 (snd (scan_exponent found r3))" by (rule unread_scan_exponent)
  ultimately have "unread cs (snd (scan_exponent found r3))"
    by (blast intro: unread_trans)
  moreover have "snd (scan_float cs) = snd (scan_exponent found r3)"
    by (simp add: scan_float_def split_beta found_def r3_def r2_def r1_def)
  ultimately show ?thesis by simp
qed

lemma buf_extract_int:
  "sentry False st = (True, st1) \<Longrightarrow>
     buf (fst (extract_int st v)) = snd (scan_digits (snd (take_sign (buf st1))))"
  by (simp add: extract_int_def split_beta Let_def)

lemma buf_extract_float:
  "sentry False st = (True, st1) \<Longrightarrow> buf (fst (extract_float st v)) = snd (scan_float (buf st1))"
  by (simp add: extract_float_def split_beta Let_def)

lemma extract_int_length: "length (buf (fst (extract_int st v))) \<le> length (buf st)"
proof (cases "sentry False st")
  case (Pair ok st1)
  have l1: "length (buf st1) \<le> length (buf st)"
    using sentry_length [of False st] Pair by simp
  show ?thesis
  proof (cases ok)
    case True
    have "unread (buf st1) (snd (scan_digits (snd (take_sign (buf st1)))))"
      by (rule unread_trans [OF unread_take_sign unread_scan_digits])
    from unread_length [OF this] l1 Pair True show ?thesis
      by (simp add: buf_extract_int)
  next
    case False
    with Pair l1 show ?thesis by (simp add: extract_int_def)
  qed
qed

lemma extract_float_length: "length (buf (fst (extract_float st v))) \<le> length (buf st)"
proof (cases "sentry False st")
  case (Pair ok st1)
  have l1: "length (buf st1) \<le> length (buf st)"
    using sentry_length [of False st] Pair by simp
  show ?thesis
  proof (cases ok)
    case True
    from unread_length [OF unread_scan_float [of "buf st1"]] l1 Pair True show ?thesis
      by (simp add: buf_extract_float)
  next
    case False
    with Pair l1 show ?thesis by (simp add: extract_float_def)
  qed
qed

lemma ignore_length: "length (buf (ignore st)) \<le> length (buf st)"
  by (simp add: ignore_def sentry_def split: list.splits)

lemma read_Student_try_length:
  "read_Student_try ifs s = Inr (ifs', s') \<Longrightarrow> length (buf ifs') < length (buf ifs)"
proof -
  assume r: "read_Student_try ifs s = Inr (ifs', s')"
  let ?i1 = "fst (getline ifs (name s))"
  let ?i2 = "fst (extract_int ?i1 (rollNo s))"
  let ?i3 = "fst (extract_float ?i2 (marks s))"
  from r have nf: "\<not> fail ?i1" and res: "ifs' = ignore ?i3"
    by (auto simp: read_Student_try_def Let_def split_beta split: if_splits)
  have "length (buf (ignore ?i3)) \<le> length (buf ?i3)" by (rule ignore_length)
  also have "\<dots> \<le> length (buf ?i2)" by (rule extract_float_length)
  also have "\<dots> \<le> length (buf ?i1)" by (rule extract_int_length)
  also have "\<dots> < length (buf ifs)" by (rule getline_length [OF nf])
  finally show ?thesis by (simp add: res)
qed

lemma read_Student_length:
  "read_Student ifs s = Inr (ifs', s') \<Longrightarrow> length (buf ifs') < length (buf ifs)"
  using read_Student_try_length [of ifs s ifs' s']
  by (simp add: read_Student_def split: sum.splits)

text \<open>
  The loop \<open>while (file >> s) students.push_back(s)\<close>: \<open>operator>>\<close> throws
  (\<open>Inl\<close>), or returns and the loop tests the stream: failed, the loop ends with the
  vector as it is, without pushing \<open>s\<close>; not failed, \<open>s\<close> is pushed and the loop
  goes on. The variable \<open>s\<close> lives across the iterations.
\<close>

function load_loop ::
  "istream \<Rightarrow> Student \<Rightarrow> Student list \<Rightarrow> string + istream \<times> Student list"
where
  "load_loop file s students =
     (case read_Student file s of
        Inl e \<Rightarrow> Inl e
      | Inr (file', s') \<Rightarrow>
          if fail file' then Inr (file', students)
          else load_loop file' s' (students @ [s']))"
  by pat_completeness auto
termination
  by (relation "measure (\<lambda>(file, s, students). length (buf file))")
     (auto dest: read_Student_length)

text \<open>
  \<open>loadFromFile\<close>. The file \<open>students.dat\<close> is \<open>None\<close> when it does not exist and
  \<open>Some\<close> of its characters when it does. \<open>loadFromFile_try\<close> is the \<open>try\<close> block:
  the exception that leaves it, or the line printed and the vector. The handler
  prints the warning and clears the vector. The result is the line written to
  \<open>cout\<close> and the vector.
\<close>

definition loadFromFile_try :: "string \<Rightarrow> Student list \<Rightarrow> string + string \<times> Student list" where
  "loadFromFile_try contents students =
     (case load_loop (ifstream contents) \<lparr>name = [], rollNo = 0, marks = 0\<rparr> students of
        Inl e \<Rightarrow> Inl e
      | Inr (file, students') \<Rightarrow>
          if badbit file then Inl ''Error reading from file''
          else Inr (''Data loaded successfully. '' @ show_nat (length students')
                      @ '' records found.'', students'))"

definition loadFromFile :: "string option \<Rightarrow> Student list \<Rightarrow> string \<times> Student list" where
  "loadFromFile file students =
     (case file of
        None \<Rightarrow> (''No existing data file found. Starting fresh.'', students)
      | Some contents \<Rightarrow>
          (case loadFromFile_try contents students of
             Inl e \<Rightarrow> (''Warning: '' @ e @ ''. Starting with empty database.'', [])
           | Inr res \<Rightarrow> res))"

text \<open>
  The constructor of \<open>StudentManagementSystem\<close> calls \<open>loadFromFile\<close> on the empty
  vector; no exception leaves \<open>loadFromFile\<close>, so its handler is never entered.
\<close>

definition StudentManagementSystem :: "string option \<Rightarrow> string \<times> Student list" where
  "StudentManagementSystem file = loadFromFile file []"

text \<open>
  \<open>saveToFile\<close> writes the records in the order of the vector. \<open>creatable\<close> tells
  whether \<open>students.dat\<close> can be opened for writing; a write that fails part-way is
  not modelled. The result is the exception thrown, or the contents of the file and
  the line written to \<open>cout\<close>.
\<close>

definition saveToFile :: "bool \<Rightarrow> Student list \<Rightarrow> string + string \<times> string" where
  "saveToFile creatable students =
     (if \<not> creatable then Inl ''Cannot create data file''
      else Inr (concat (map write_Student students),
                ''Data saved successfully. '' @ show_nat (length students)
                  @ '' records stored.''))"

text \<open>
  Two shapes of file contents: \<open>nl_terminated\<close>, empty or ending in a newline (what
  \<open>saveToFile\<close> writes), and \<open>ends_nl\<close>, not empty and ending in a newline.
\<close>

definition nl_terminated :: "string \<Rightarrow> bool" where
  "nl_terminated cs = (cs = [] \<or> last cs = CHR 0x0A)"

definition ends_nl :: "string \<Rightarrow> bool" where
  "ends_nl cs = (cs \<noteq> [] \<and> last cs = CHR 0x0A)"

text \<open>
  \<open>records_read k\<close> is the state of the loop of \<open>loadFromFile\<close> after \<open>k\<close> records
  have been read and pushed: the stream, the variable \<open>s\<close> and the vector; \<open>None\<close>
  when the loop ends before.
\<close>

fun records_read ::
  "nat \<Rightarrow> istream \<Rightarrow> Student \<Rightarrow> Student list \<Rightarrow> (istream \<times> Student \<times> Student list) option"
where
  "records_read 0 ifs s students = Some (ifs, s, students)"
| "records_read (Suc k) ifs s students =
     (case read_Student ifs s of
        Inl e \<Rightarrow> None
      | Inr (ifs', s') \<Rightarrow>
          if fail ifs' then None else records_read k ifs' s' (students @ [s']))"

text \<open>
  The three ways the next record can fail to parse: its name line cannot be read, the
  token after it is not an \<open>int\<close>, the token after that is not a \<open>float\<close>.
\<close>

definition name_unreadable :: "istream \<Rightarrow> Student \<Rightarrow> bool" where
  "name_unreadable ifs s = fail (fst (getline ifs (name s)))"

definition rollNo_not_integer :: "istream \<Rightarrow> Student \<Rightarrow> bool" where
  "rollNo_not_integer ifs s =
     (\<not> name_unreadable ifs s
      \<and> fail (fst (extract_int (fst (getline ifs (name s))) (rollNo s))))"

definition marks_not_numeric :: "istream \<Rightarrow> Student \<Rightarrow> bool" where
  "marks_not_numeric ifs s =
     (\<not> name_unreadable ifs s \<and> \<not> rollNo_not_integer ifs s
      \<and> fail (fst (extract_float (fst (extract_int (fst (getline ifs (name s))) (rollNo s)))
                    (marks s))))"

text \<open>
  The records of a file: those that \<open>operator>>\<close> reads from it, one after the
  other, until it throws or leaves the stream failed. (When the loop of
  \<open>loadFromFile\<close> ends without an exception the vector has got all of them but the
  last.)
\<close>

function read_records :: "istream \<Rightarrow> Student \<Rightarrow> Student list" where
  "read_records ifs s =
     (case read_Student ifs s of
        Inl e \<Rightarrow> []
      | Inr (ifs', s') \<Rightarrow> s' # (if fail ifs' then [] else read_records ifs' s'))"
  by pat_completeness auto
termination
  by (relation "measure (\<lambda>(ifs, s). length (buf ifs))")
     (auto dest: read_Student_length)

definition file_records :: "string \<Rightarrow> Student list" where
  "file_records contents =
     read_records (ifstream contents) \<lparr>name = [], rollNo = 0, marks = 0\<rparr>"

text \<open>
  The stores reachable from the empty one by \<open>loadFromFile\<close>, \<open>addStudent\<close>,
  \<open>updateStudent\<close> and \<open>deleteStudent\<close>, with any console input, where every file
  loaded satisfies \<open>P\<close> together with the store it is loaded into.
  \<open>no_rollNo_twice\<close>: no roll number occurs twice among the records of the store and
  those of the file.
\<close>

inductive reachable_with :: "(string option \<Rightarrow> Student list \<Rightarrow> bool) \<Rightarrow> Student list \<Rightarrow> bool"
  for P :: "string option \<Rightarrow> Student list \<Rightarrow> bool"
where
  start: "reachable_with P []"
| load: "reachable_with P ss \<Longrightarrow> P f ss \<Longrightarrow> reachable_with P (snd (loadFromFile f ss))"
| add: "reachable_with P ss \<Longrightarrow> reachable_with P (snd (addStudent nm rin mkin ss))"
| update: "reachable_with P ss \<Longrightarrow> reachable_with P (snd (updateStudent rin nm mkin ss))"
| delete: "reachable_with P ss \<Longrightarrow> reachable_with P (snd (deleteStudent rin ss))"

definition any_file :: "string option \<Rightarrow> Student list \<Rightarrow> bool" where
  "any_file f ss = True"

definition no_rollNo_twice :: "string option \<Rightarrow> Student list \<Rightarrow> bool" where
  "no_rollNo_twice f ss =
     (case f of
        None \<Rightarrow> True
      | Some contents \<Rightarrow> distinct (map rollNo (ss @ file_records contents)))"

section \<open>Statistics\<close>

text \<open>
  The marks of a record are finite floats: \<open>operator>>\<close> fails on an overflow and
  reads no infinity. The running total of \<open>showStatistics\<close> is a float that can
  overflow: \<open>xfloat\<close> is a finite value or an infinity. \<open>to_float\<close> is the rounding
  of an exact result to single precision, to an infinity when the rounded magnitude
  reaches \<open>2^128\<close>.
\<close>

datatype xfloat = Finite cfloat | PlusInf | MinusInf

definition to_float :: "rat \<Rightarrow> xfloat" where
  "to_float x =
     (let r = float_round x
      in if 2 ^ 128 \<le> r then PlusInf else if r \<le> - (2 ^ 128) then MinusInf else Finite r)"

text \<open>
  \<open>showStatistics\<close> computes with floats: \<open>total += m\<close> is the addition \<open>fadd\<close> of a
  finite float to the total, rounded to single precision; an infinite total stays
  as it is. \<open>total / students.size()\<close> converts the size to a float and divides,
  rounded again (\<open>fdiv\<close>, a division by a finite float greater than 0: the size of a
  vector that is not empty is at least 1 and below \<open>2^64\<close>). \<open>stats_loop\<close> is the
  range-for loop over the vector with its three variables. \<open>showStatistics_values\<close>
  is the computation: \<open>No students found!\<close> for the empty vector, and otherwise the
  four values that are written to \<open>cout\<close>. \<open>showStatistics\<close> is the lines written:
  the manipulators \<open>fixed\<close> and \<open>setprecision(2)\<close> given with the average stay in
  force for the two values after it.
\<close>

fun fadd :: "xfloat \<Rightarrow> cfloat \<Rightarrow> xfloat" where
  "fadd (Finite a) b = to_float (a + b)"
| "fadd PlusInf b = PlusInf"
| "fadd MinusInf b = MinusInf"

fun fdiv :: "xfloat \<Rightarrow> cfloat \<Rightarrow> xfloat" where
  "fdiv (Finite a) b = to_float (a / b)"
| "fdiv PlusInf b = PlusInf"
| "fdiv MinusInf b = MinusInf"

definition size_to_float :: "nat \<Rightarrow> cfloat" where
  "size_to_float n = float_round (of_nat n)"

fun stats_loop :: "Student list \<Rightarrow> xfloat \<times> cfloat \<times> cfloat \<Rightarrow> xfloat \<times> cfloat \<times> cfloat" where
  "stats_loop [] acc = acc"
| "stats_loop (s # rest) (tot, maxMarks, minMarks) =
     stats_loop rest
       (fadd tot (marks s),
        if marks s > maxMarks then marks s else maxMarks,
        if marks s < minMarks then marks s else minMarks)"

record statistics =
  total_students :: nat
  average_marks :: xfloat
  highest_marks :: cfloat
  lowest_marks :: cfloat

definition showStatistics_values :: "Student list \<Rightarrow> string + statistics" where
  "showStatistics_values students =
     (if students = [] then Inl ''No students found!''
      else
        let (tot, maxMarks, minMarks) =
              stats_loop students (Finite 0, marks (students ! 0), marks (students ! 0))
        in Inr \<lparr>total_students = length students,
                average_marks = fdiv tot (size_to_float (length students)),
                highest_marks = maxMarks,
                lowest_marks = minMarks\<rparr>)"

text \<open>
  \<open>show_fixed p x\<close> is the text of \<open>x\<close> in the \<open>fixed\<close> format with precision \<open>p\<close>
  (\<open>printf\<close> with \<open>%.pf\<close>): the value rounded to \<open>p\<close> decimals, ties to even on the
  exact value. As in \<open>show_float\<close>, the sign of a zero is not modelled. An infinity
  is written \<open>inf\<close>.
\<close>

definition show_fixed :: "nat \<Rightarrow> cfloat \<Rightarrow> string" where
  "show_fixed p x =
     (let n = round_half_even (\<bar>x\<bar> * 10 ^ p);
          fp = show_digits (n mod 10 ^ p);
          body = with_point (show_digits (n div 10 ^ p))
                   (replicate (p - length fp) CHR ''0'' @ (if p = 0 then [] else fp))
      in if x < 0 then CHR ''-'' # body else body)"

fun show_fixed_xfloat :: "nat \<Rightarrow> xfloat \<Rightarrow> string" where
  "show_fixed_xfloat p (Finite x) = show_fixed p x"
| "show_fixed_xfloat p PlusInf = ''inf''"
| "show_fixed_xfloat p MinusInf = ''-inf''"

definition showStatistics :: "Student list \<Rightarrow> string list" where
  "showStatistics students =
     (case showStatistics_values students of
        Inl msg \<Rightarrow> [msg]
      | Inr st \<Rightarrow>
          [[], ''--- Statistics ---'',
           ''Total Students: '' @ show_nat (total_students st),
           ''Average Marks: '' @ show_fixed_xfloat 2 (average_marks st),
           ''Highest Marks: '' @ show_fixed 2 (highest_marks st),
           ''Lowest Marks: '' @ show_fixed 2 (lowest_marks st)])"

text \<open>
  \<open>representable x\<close>: \<open>x\<close> is a finite single-precision value: rounding leaves it as
  it is and its magnitude is below \<open>2^128\<close>. \<open>exact_sums\<close>: every partial sum of the
  marks, in the order of the vector, is representable, so that the running total is
  computed without rounding.
\<close>

definition representable :: "rat \<Rightarrow> bool" where
  "representable x = (float_round x = x \<and> \<bar>x\<bar> < 2 ^ 128)"

fun exact_sums :: "rat \<Rightarrow> rat list \<Rightarrow> bool" where
  "exact_sums t [] = True"
| "exact_sums t (m # ms) = (representable (t + m) \<and> exact_sums (t + m) ms)"

section \<open>Facts about the linear scan\<close>

lemma findStudentIndex_from_none:
  "(findStudentIndex_from i ss r = - 1) = (r \<notin> rollNo ` set ss)"
  by (induction ss arbitrary: i) auto

lemma findStudentIndex_from_range:
  "r \<in> rollNo ` set ss \<Longrightarrow>
     int i \<le> findStudentIndex_from i ss r \<and> findStudentIndex_from i ss r < int i + int (length ss)"
proof (induction ss arbitrary: i)
  case Nil
  then show ?case by simp
next
  case (Cons s ss)
  show ?case
  proof (cases "rollNo s = r")
    case True
    then show ?thesis by simp
  next
    case False
    with Cons.prems have "r \<in> rollNo ` set ss" by auto
    from Cons.IH [OF this, of "Suc i"] False show ?thesis by simp
  qed
qed

lemma findStudentIndex_from_hit:
  "r \<in> rollNo ` set ss \<Longrightarrow>
     rollNo (ss ! (nat (findStudentIndex_from i ss r) - i)) = r"
proof (induction ss arbitrary: i)
  case Nil
  then show ?case by simp
next
  case (Cons s ss)
  show ?case
  proof (cases "rollNo s = r")
    case True
    then show ?thesis by simp
  next
    case False
    with Cons.prems have mem: "r \<in> rollNo ` set ss" by auto
    from findStudentIndex_from_range [OF mem, of "Suc i"]
    have "nat (findStudentIndex_from (Suc i) ss r) - i
            = Suc (nat (findStudentIndex_from (Suc i) ss r) - Suc i)"
      by linarith
    with Cons.IH [OF mem, of "Suc i"] False show ?thesis by simp
  qed
qed

lemma findStudentIndex_from_first:
  "r \<in> rollNo ` set ss \<Longrightarrow> k < nat (findStudentIndex_from i ss r) - i \<Longrightarrow>
     rollNo (ss ! k) \<noteq> r"
proof (induction ss arbitrary: i k)
  case Nil
  then show ?case by simp
next
  case (Cons s ss)
  show ?case
  proof (cases "rollNo s = r")
    case True
    with Cons.prems show ?thesis by simp
  next
    case False
    with Cons.prems have mem: "r \<in> rollNo ` set ss" by auto
    show ?thesis
    proof (cases k)
      case 0
      with False show ?thesis by simp
    next
      case (Suc j)
      from findStudentIndex_from_range [OF mem, of "Suc i"] Cons.prems(2) False Suc
      have "j < nat (findStudentIndex_from (Suc i) ss r) - Suc i" by simp
      from Cons.IH [OF mem this] Suc show ?thesis by simp
    qed
  qed
qed

lemma findStudentIndex_none: "(findStudentIndex ss r = - 1) = (r \<notin> rollNo ` set ss)"
  by (simp add: findStudentIndex_def findStudentIndex_from_none)

lemma findStudentIndex_range:
  "r \<in> rollNo ` set ss \<Longrightarrow> 0 \<le> findStudentIndex ss r \<and> nat (findStudentIndex ss r) < length ss"
  using findStudentIndex_from_range [of r ss 0] by (auto simp: findStudentIndex_def)

lemma findStudentIndex_hit:
  "r \<in> rollNo ` set ss \<Longrightarrow> rollNo (ss ! nat (findStudentIndex ss r)) = r"
  using findStudentIndex_from_hit [of r ss 0] by (simp add: findStudentIndex_def)

lemma findStudentIndex_first:
  "r \<in> rollNo ` set ss \<Longrightarrow> k < nat (findStudentIndex ss r) \<Longrightarrow> rollNo (ss ! k) \<noteq> r"
  using findStudentIndex_from_first [of r ss k 0] by (simp add: findStudentIndex_def)

lemma findStudentIndex_append_new:
  "r \<notin> rollNo ` set ss \<Longrightarrow> rollNo s = r \<Longrightarrow>
     findStudentIndex_from i (ss @ [s]) r = int i + int (length ss)"
  by (induction ss arbitrary: i) auto

section \<open>Facts about the store operations\<close>

lemma reports_error_Error: "reports_error (''Error: '' @ e)"
  by (simp add: reports_error_def)

lemma addStudent_cases:
  "addStudent nm (Some r) (Some m) students =
     (if nm = [] then (''Error: Name cannot be empty'', students)
      else if r < 0 then (''Error: Roll number cannot be negative'', students)
      else if m < 0 \<or> 100 < m then (''Error: Marks must be between 0-100'', students)
      else if r \<in> rollNo ` set students
        then (''Error: Student with this Roll No already exists'', students)
      else (''Student added successfully!'', students @ [\<lparr>name = nm, rollNo = r, marks = m\<rparr>]))"
  by (simp add: addStudent_def addStudent_try_def Student_ctor_def findStudentIndex_none)

lemma addStudent_error_unchanged:
  "reports_error (fst (addStudent nm rin mkin students)) \<Longrightarrow>
     snd (addStudent nm rin mkin students) = students"
  by (auto simp: addStudent_def addStudent_try_def Student_ctor_def reports_error_def
      split: option.splits if_splits)

lemma updateStudent_cases:
  "updateStudent (Some r) nm (Some m) students =
     (if r \<notin> rollNo ` set students then (''Error: Student not found'', students)
      else if nm = [] then (''Error: Name cannot be empty'', students)
      else if m < 0 \<or> 100 < m then (''Error: Marks must be between 0-100'', students)
      else (''Student details updated successfully!'',
            students[nat (findStudentIndex students r) :=
               (students ! nat (findStudentIndex students r))\<lparr>name := nm, marks := m\<rparr>]))"
  using findStudentIndex_range [of r students]
  by (auto simp: updateStudent_def updateStudent_try_def setName_def setMarks_def
      findStudentIndex_none Let_def)

lemma updateStudent_error_unchanged:
  "reports_error (fst (updateStudent rin nm mkin students)) \<Longrightarrow>
     snd (updateStudent rin nm mkin students) = students"
  by (auto simp: updateStudent_def updateStudent_try_def setName_def setMarks_def Let_def
      reports_error_def split: option.splits if_splits)

lemma updateStudent_rollNo:
  "map rollNo (snd (updateStudent rin nm mkin students)) = map rollNo students"
proof (cases "\<exists>r m. rin = Some r \<and> mkin = Some m")
  case True
  then obtain r m where "rin = Some r" "mkin = Some m" by blast
  then show ?thesis
    using findStudentIndex_range [of r students]
    by (auto simp: updateStudent_cases map_update list_update_same_conv)
next
  case False
  then show ?thesis
    by (auto simp: updateStudent_def updateStudent_try_def Let_def split: option.splits)
qed

lemma deleteStudent_cases:
  "deleteStudent (Some r) students =
     (if r \<notin> rollNo ` set students then (''Error: Student not found'', students)
      else (''Student deleted successfully!'', erase students (nat (findStudentIndex students r))))"
  by (simp add: deleteStudent_def deleteStudent_try_def findStudentIndex_none Let_def)

lemma findStudentIndex_filter:
  "(r \<in> rollNo ` set ss) = (filter (\<lambda>s. rollNo s = r) ss \<noteq> [])"
  by (auto simp: filter_empty_conv)

lemma erase_first_filter:
  "r \<in> rollNo ` set ss \<Longrightarrow>
     filter (\<lambda>s. rollNo s = r) (erase ss (nat (findStudentIndex_from i ss r) - i))
       = tl (filter (\<lambda>s. rollNo s = r) ss)"
proof (induction ss arbitrary: i)
  case Nil
  then show ?case by simp
next
  case (Cons s ss)
  show ?case
  proof (cases "rollNo s = r")
    case True
    then show ?thesis by (simp add: erase_def)
  next
    case False
    with Cons.prems have mem: "r \<in> rollNo ` set ss" by auto
    from findStudentIndex_from_range [OF mem, of "Suc i"]
    have "nat (findStudentIndex_from (Suc i) ss r) - i
            = Suc (nat (findStudentIndex_from (Suc i) ss r) - Suc i)"
      by linarith
    with Cons.IH [OF mem, of "Suc i"] False show ?thesis by (simp add: erase_def)
  qed
qed

lemma searchStudent_cases:
  "searchStudent (Some r) ss =
     (if r \<notin> rollNo ` set ss then Inl ''Error: Student not found''
      else Inr (ss ! nat (findStudentIndex ss r)))"
  by (simp add: searchStudent_def findStudentIndex_none Let_def)

lemma search_after_delete:
  assumes "r \<in> rollNo ` set ss"
  shows "(searchStudent (Some r) (snd (deleteStudent (Some r) ss)) = Inl ''Error: Student not found'')
           = (length (filter (\<lambda>s. rollNo s = r) ss) = 1)"
proof -
  let ?ss' = "erase ss (nat (findStudentIndex ss r))"
  have f: "filter (\<lambda>s. rollNo s = r) ?ss' = tl (filter (\<lambda>s. rollNo s = r) ss)"
    using erase_first_filter [OF assms, of 0] by (simp add: findStudentIndex_def)
  have ne: "filter (\<lambda>s. rollNo s = r) ss \<noteq> []"
    using assms by (simp add: findStudentIndex_filter)
  have "(r \<notin> rollNo ` set ?ss') = (tl (filter (\<lambda>s. rollNo s = r) ss) = [])"
    by (simp add: findStudentIndex_filter f)
  also have "\<dots> = (length (filter (\<lambda>s. rollNo s = r) ss) = 1)"
    using ne by (cases "filter (\<lambda>s. rollNo s = r) ss") auto
  finally show ?thesis
    using assms by (simp add: deleteStudent_cases searchStudent_cases)
qed

lemma distinct_filter_one:
  "distinct (map rollNo ss) \<Longrightarrow> r \<in> rollNo ` set ss \<Longrightarrow>
     length (filter (\<lambda>s. rollNo s = r) ss) = 1"
  by (induction ss) (auto simp: filter_empty_conv image_iff)

lemma search_after_add:
  "nm \<noteq> [] \<Longrightarrow> 0 \<le> r \<Longrightarrow> 0 \<le> m \<Longrightarrow> m \<le> 100 \<Longrightarrow> r \<notin> rollNo ` set ss \<Longrightarrow>
     searchStudent (Some r) (snd (addStudent nm (Some r) (Some m) ss))
       = Inr \<lparr>name = nm, rollNo = r, marks = m\<rparr>"
  using findStudentIndex_append_new [of r ss "\<lparr>name = nm, rollNo = r, marks = m\<rparr>" 0]
  by (simp add: addStudent_cases searchStudent_cases findStudentIndex_def)

section \<open>Loading a file that ends in a newline\<close>

lemma ends_nl_unread: "unread cs r \<Longrightarrow> ends_nl cs \<Longrightarrow> ends_nl r"
proof -
  assume u: "unread cs r" and e: "ends_nl cs"
  from u obtain pre where cs: "cs = pre @ r" and pre: "CHR 0x0A \<notin> set pre"
    by (auto simp: unread_def)
  have "r \<noteq> []"
  proof
    assume "r = []"
    with cs e have "pre \<noteq> []" "last pre = CHR 0x0A" by (auto simp: ends_nl_def)
    then have "CHR 0x0A \<in> set pre" by (metis last_in_set)
    with pre show False by simp
  qed
  with cs e show ?thesis by (simp add: ends_nl_def)
qed

lemma ends_nl_dropWhile:
  "ends_nl cs \<Longrightarrow> dropWhile P cs \<noteq> [] \<Longrightarrow> ends_nl (dropWhile P cs)"
proof -
  assume e: "ends_nl cs" and ne: "dropWhile P cs \<noteq> []"
  have "last cs = last (takeWhile P cs @ dropWhile P cs)" by simp
  also have "\<dots> = last (dropWhile P cs)" using ne by (simp only: last_append if_False)
  finally show ?thesis using e ne by (simp add: ends_nl_def)
qed

lemma nl_terminated_tl: "ends_nl cs \<Longrightarrow> nl_terminated (tl cs)"
  by (cases cs) (auto simp: ends_nl_def nl_terminated_def split: if_splits)

lemma ends_nl_mem: "ends_nl cs \<Longrightarrow> CHR 0x0A \<in> set cs"
  by (metis ends_nl_def last_in_set)

lemma getline_nl:
  assumes "good st" "nl_terminated (buf st)"
  shows "fail (fst (getline st str))
         \<or> good (fst (getline st str)) \<and> nl_terminated (buf (fst (getline st str)))"
proof (cases "buf st = []")
  case True
  with assms show ?thesis by (simp add: getline_def sentry_def fail_def)
next
  case False
  with assms have e: "ends_nl (buf st)" by (simp add: nl_terminated_def ends_nl_def)
  let ?rest = "dropWhile (\<lambda>c. c \<noteq> CHR 0x0A) (buf st)"
  from ends_nl_mem [OF e] have ne: "?rest \<noteq> []" by (simp add: dropWhile_eq_Nil_conv)
  from ends_nl_dropWhile [OF e ne] have "nl_terminated (tl ?rest)" by (rule nl_terminated_tl)
  moreover have "fst (getline st str) = st\<lparr>buf := tl ?rest\<rparr>"
    using ne assms(1) by (auto simp: getline_def sentry_def Let_def)
  ultimately show ?thesis using assms(1) by (simp add: good_def)
qed

lemma sentry_skip_nl:
  assumes "good st" "ends_nl (buf st)"
  shows "sentry False st = (False, st\<lparr>buf := [], eofbit := True, failbit := True\<rparr>)
         \<or> (\<exists>st1. sentry False st = (True, st1) \<and> good st1 \<and> ends_nl (buf st1))"
proof (cases "dropWhile isspace (buf st) = []")
  case True
  with assms(1) show ?thesis by (simp add: sentry_def)
next
  case False
  from ends_nl_dropWhile [OF assms(2) False] False assms(1) show ?thesis
    by (simp add: sentry_def good_def)
qed

lemma extract_int_nl:
  assumes "good st" "ends_nl (buf st)"
  shows "fail (fst (extract_int st v))
         \<or> good (fst (extract_int st v)) \<and> ends_nl (buf (fst (extract_int st v)))"
  using sentry_skip_nl [OF assms]
proof
  assume "sentry False st = (False, st\<lparr>buf := [], eofbit := True, failbit := True\<rparr>)"
  then show ?thesis by (simp add: extract_int_def fail_def)
next
  assume "\<exists>st1. sentry False st = (True, st1) \<and> good st1 \<and> ends_nl (buf st1)"
  then obtain st1 where s: "sentry False st = (True, st1)" and g: "good st1"
    and e: "ends_nl (buf st1)" by blast
  let ?r = "snd (scan_digits (snd (take_sign (buf st1))))"
  have "unread (buf st1) ?r" by (rule unread_trans [OF unread_take_sign unread_scan_digits])
  from ends_nl_unread [OF this e] have er: "ends_nl ?r" .
  then have "?r \<noteq> []" by (simp add: ends_nl_def)
  with s g er show ?thesis
    by (auto simp: extract_int_def split_beta Let_def good_def fail_def)
qed

lemma extract_float_nl:
  assumes "good st" "ends_nl (buf st)"
  shows "fail (fst (extract_float st v))
         \<or> good (fst (extract_float st v)) \<and> ends_nl (buf (fst (extract_float st v)))"
  using sentry_skip_nl [OF assms]
proof
  assume "sentry False st = (False, st\<lparr>buf := [], eofbit := True, failbit := True\<rparr>)"
  then show ?thesis by (simp add: extract_float_def fail_def)
next
  assume "\<exists>st1. sentry False st = (True, st1) \<and> good st1 \<and> ends_nl (buf st1)"
  then obtain st1 where s: "sentry False st = (True, st1)" and g: "good st1"
    and e: "ends_nl (buf st1)" by blast
  let ?r = "snd (scan_float (buf st1))"
  from ends_nl_unread [OF unread_scan_float e] have er: "ends_nl ?r" .
  then have "?r \<noteq> []" by (simp add: ends_nl_def)
  with s g er show ?thesis
    by (simp add: extract_float_def split_beta Let_def good_def fail_def)
qed

lemma ignore_nl:
  assumes "good st" "ends_nl (buf st)"
  shows "good (ignore st) \<and> nl_terminated (buf (ignore st))"
proof -
  from assms(2) obtain c rest where b: "buf st = c # rest" 
    by (cases "buf st") (auto simp: ends_nl_def)
  with nl_terminated_tl [OF assms(2)] assms(1) show ?thesis
    by (simp add: ignore_def sentry_def good_def)
qed

lemma read_Student_nl:
  assumes "good ifs" "nl_terminated (buf ifs)"
  shows "read_Student ifs s = Inl ''Corrupted data in file''
         \<or> (\<exists>ifs' s'. read_Student ifs s = Inr (ifs', s') \<and> good ifs' \<and> nl_terminated (buf ifs'))"
proof -
  let ?i1 = "fst (getline ifs (name s))"
  let ?i2 = "fst (extract_int ?i1 (rollNo s))"
  let ?i3 = "fst (extract_float ?i2 (marks s))"
  show ?thesis
  proof (cases "fail ?i1 \<or> fail ?i2 \<or> fail ?i3")
    case True
    then show ?thesis
      by (auto simp: read_Student_def read_Student_try_def split_beta Let_def)
  next
    case False
    then have nf: "\<not> fail ?i1" "\<not> fail ?i2" "\<not> fail ?i3" by simp_all
    from getline_nl [OF assms, of "name s"] nf(1)
    have g1: "good ?i1" and n1: "nl_terminated (buf ?i1)" by simp_all
    have "buf ?i1 \<noteq> []"
    proof
      assume emp: "buf ?i1 = []"
      with g1 have "fail ?i2" by (simp add: extract_int_def sentry_def fail_def)
      with nf(2) show False by simp
    qed
    with n1 have e1: "ends_nl (buf ?i1)" by (simp add: nl_terminated_def ends_nl_def)
    from extract_int_nl [OF g1 e1, of "rollNo s"] nf(2)
    have g2: "good ?i2" and e2: "ends_nl (buf ?i2)" by simp_all
    from extract_float_nl [OF g2 e2, of "marks s"] nf(3)
    have g3: "good ?i3" and e3: "ends_nl (buf ?i3)" by simp_all
    from ignore_nl [OF g3 e3] nf show ?thesis
      by (simp add: read_Student_def read_Student_try_def split_beta Let_def)
  qed
qed

lemma good_not_fail: "good st \<Longrightarrow> \<not> fail st"
  by (simp add: good_def fail_def)

lemma load_loop_nl:
  "good ifs \<Longrightarrow> nl_terminated (buf ifs) \<Longrightarrow>
     load_loop ifs s students = Inl ''Corrupted data in file''"
proof (induction ifs s students rule: load_loop.induct)
  case (1 ifs s students)
  from read_Student_nl [OF "1.prems", of s] show ?case
  proof
    assume "read_Student ifs s = Inl ''Corrupted data in file''"
    then show ?thesis by (subst load_loop.simps) simp
  next
    assume "\<exists>ifs' s'. read_Student ifs s = Inr (ifs', s') \<and> good ifs' \<and> nl_terminated (buf ifs')"
    then obtain ifs' s' where r: "read_Student ifs s = Inr (ifs', s')"
      and g: "good ifs'" and n: "nl_terminated (buf ifs')" by blast
    have nf: "\<not> fail ifs'" by (rule good_not_fail [OF g])
    from "1.IH" [OF r refl nf g n] r nf show ?thesis
      by (subst load_loop.simps) simp
  qed
qed

lemma loadFromFile_nl:
  "nl_terminated contents \<Longrightarrow>
     loadFromFile (Some contents) students
       = (''Warning: Corrupted data in file. Starting with empty database.'', [])"
  using load_loop_nl [of "ifstream contents" "\<lparr>name = [], rollNo = 0, marks = 0\<rparr>" students]
  by (simp add: loadFromFile_def loadFromFile_try_def ifstream_def good_def)

lemma nl_terminated_saved: "nl_terminated (concat (map write_Student students))"
proof (cases students rule: rev_cases)
  case Nil
  then show ?thesis by (simp add: nl_terminated_def)
next
  case (snoc ss s)
  then show ?thesis by (simp add: nl_terminated_def write_Student_def)
qed

lemma save_then_load_empty:
  "saveToFile True students = Inr (contents, line) \<Longrightarrow>
     loadFromFile (Some contents) init
       = (''Warning: Corrupted data in file. Starting with empty database.'', [])"
  using nl_terminated_saved [of students]
  by (auto simp: saveToFile_def loadFromFile_nl)

section \<open>Facts about the statistics loop\<close>

lemma stats_loop_total:
  "fst (stats_loop ss (t, mx, mn)) = foldl fadd t (map marks ss)"
  by (induction ss arbitrary: t mx mn) auto

lemma stats_loop_max:
  "fst (snd (stats_loop ss (t, mx, mn))) = Max (insert mx (marks ` set ss))"
proof (induction ss arbitrary: t mx mn)
  case Nil
  then show ?case by simp
next
  case (Cons s ss)
  have "Max (insert (if mx < marks s then marks s else mx) (marks ` set ss))
      = Max (insert mx (insert (marks s) (marks ` set ss)))"
    by (cases "marks ` set ss = {}") (auto simp: max_def Max_insert)
  with Cons show ?case by simp
qed

lemma stats_loop_min:
  "snd (snd (stats_loop ss (t, mx, mn))) = Min (insert mn (marks ` set ss))"
proof (induction ss arbitrary: t mx mn)
  case Nil
  then show ?case by simp
next
  case (Cons s ss)
  have "Min (insert (if marks s < mn then marks s else mn) (marks ` set ss))
      = Min (insert mn (insert (marks s) (marks ` set ss)))"
    by (cases "marks ` set ss = {}") (auto simp: min_def Min_insert)
  with Cons show ?case by simp
qed

lemma to_float_representable: "representable x \<Longrightarrow> to_float x = Finite x"
  by (auto simp: to_float_def representable_def Let_def)

lemma foldl_fadd_exact:
  "exact_sums t ms \<Longrightarrow> foldl fadd (Finite t) ms = Finite (t + sum_list ms)"
  by (induction ms arbitrary: t) (auto simp: to_float_representable)

lemma showStatistics_values_nonempty:
  assumes "students \<noteq> []"
  shows "showStatistics_values students =
     Inr \<lparr>total_students = length students,
          average_marks
            = fdiv (foldl fadd (Finite 0) (map marks students)) (size_to_float (length students)),
          highest_marks = Max (marks ` set students),
          lowest_marks = Min (marks ` set students)\<rparr>"
proof -
  let ?m0 = "marks (students ! 0)"
  let ?r = "stats_loop students (Finite 0, ?m0, ?m0)"
  from assms have "?m0 \<in> marks ` set students" by (cases students) auto
  then have ins: "insert ?m0 (marks ` set students) = marks ` set students" by blast
  have "fst ?r = foldl fadd (Finite 0) (map marks students)" by (rule stats_loop_total)
  moreover have "fst (snd ?r) = Max (marks ` set students)"
    using stats_loop_max [of students "Finite 0" ?m0 ?m0] ins by simp
  moreover have "snd (snd ?r) = Min (marks ` set students)"
    using stats_loop_min [of students "Finite 0" ?m0 ?m0] ins by simp
  ultimately show ?thesis
    using assms by (simp add: showStatistics_values_def split_beta)
qed

lemma representable_examples:
  "representable 50" "representable 120" "representable 210" "representable 3" "representable 70"
  by code_simp+

section \<open>Facts about the loop of loadFromFile\<close>

lemma records_read_load_loop:
  "records_read k ifs s students = Some (ifs', s', students') \<Longrightarrow>
     load_loop ifs s students = load_loop ifs' s' students'"
proof (induction k arbitrary: ifs s students)
  case 0
  then show ?case by simp
next
  case (Suc k)
  from Suc.prems obtain i1 s1 where r: "read_Student ifs s = Inr (i1, s1)" and nf: "\<not> fail i1"
    and rest: "records_read k i1 s1 (students @ [s1]) = Some (ifs', s', students')"
    by (auto split: sum.splits if_splits)
  from Suc.IH [OF rest] r nf show ?case
    by (subst load_loop.simps) simp
qed

lemma records_read_length:
  "records_read k ifs s students = Some (ifs', s', students') \<Longrightarrow>
     length students' = length students + k"
proof (induction k arbitrary: ifs s students)
  case 0
  then show ?case by simp
next
  case (Suc k)
  from Suc.prems obtain i1 s1 where
    rest: "records_read k i1 s1 (students @ [s1]) = Some (ifs', s', students')"
    by (auto split: sum.splits if_splits)
  from Suc.IH [OF rest] show ?case by simp
qed

lemma read_Student_throws:
  "(read_Student ifs s = Inl ''Corrupted data in file'')
     = (name_unreadable ifs s \<or> rollNo_not_integer ifs s \<or> marks_not_numeric ifs s)"
  by (auto simp: read_Student_def read_Student_try_def name_unreadable_def
      rollNo_not_integer_def marks_not_numeric_def split_beta Let_def)

lemma load_loop_throws:
  "name_unreadable ifs s \<or> rollNo_not_integer ifs s \<or> marks_not_numeric ifs s \<Longrightarrow>
     load_loop ifs s students = Inl ''Corrupted data in file''"
  by (subst load_loop.simps) (simp add: read_Student_throws [symmetric])

lemma load_example_bad_rollNo:
  "records_read 1 (ifstream ''A\<newline>1\<newline>50\<newline>B\<newline>xyz\<newline>'') \<lparr>name = [], rollNo = 0, marks = 0\<rparr> []
     = Some (\<lparr>buf = ''B\<newline>xyz\<newline>'', eofbit = False, failbit = False, badbit = False\<rparr>,
             \<lparr>name = ''A'', rollNo = 1, marks = 50\<rparr>,
             [\<lparr>name = ''A'', rollNo = 1, marks = 50\<rparr>])"
  "rollNo_not_integer \<lparr>buf = ''B\<newline>xyz\<newline>'', eofbit = False, failbit = False, badbit = False\<rparr>
     \<lparr>name = ''A'', rollNo = 1, marks = 50\<rparr>"
  by code_simp+

lemma load_example_unterminated:
  "loadFromFile (Some ''Alice\<newline>1\<newline>88.5\<newline>Bob\<newline>2\<newline>42'') []
     = (''Data loaded successfully. 1 records found.'',
        [\<lparr>name = ''Alice'', rollNo = 1, marks = 885 / 10\<rparr>])"
  by code_simp

lemma load_example_duplicates:
  "loadFromFile (Some ''A\<newline>1\<newline>50\<newline>B\<newline>1\<newline>60\<newline>C\<newline>3\<newline>70'') []
     = (''Data loaded successfully. 2 records found.'',
        [\<lparr>name = ''A'', rollNo = 1, marks = 50\<rparr>, \<lparr>name = ''B'', rollNo = 1, marks = 60\<rparr>])"
  by code_simp

lemma save_example:
  "saveToFile True [\<lparr>name = ''Alice'', rollNo = 1, marks = 885 / 10\<rparr>,
                    \<lparr>name = ''Bob'', rollNo = 2, marks = 42\<rparr>]
     = Inr (''Alice\<newline>1\<newline>88.5\<newline>Bob\<newline>2\<newline>42\<newline>'', ''Data saved successfully. 2 records stored.'')"
  by code_simp

lemma read_Student_at_end: "read_Student (ifstream []) s = Inl ''Corrupted data in file''"
  by (simp add: read_Student_def read_Student_try_def getline_def sentry_def ifstream_def
      good_def fail_def)

section \<open>Facts about uniqueness of roll numbers\<close>

lemma distinct_erase: "distinct (map f xs) \<Longrightarrow> distinct (map f (erase xs i))"
proof (induction xs arbitrary: i)
  case Nil
  then show ?case by (simp add: erase_def)
next
  case (Cons x xs)
  show ?case
  proof (cases i)
    case 0
    with Cons.prems show ?thesis by (simp add: erase_def)
  next
    case (Suc j)
    from Cons.prems have "f x \<notin> f ` set (take j xs)" "f x \<notin> f ` set (drop (Suc j) xs)"
      by (auto dest: in_set_takeD in_set_dropD)
    with Cons.IH [of j] Cons.prems Suc show ?thesis by (simp add: erase_def)
  qed
qed

lemma length_erase: "i < length xs \<Longrightarrow> Suc (length (erase xs i)) = length xs"
  by (auto simp: erase_def)

lemma addStudent_distinct:
  "distinct (map rollNo ss) \<Longrightarrow> distinct (map rollNo (snd (addStudent nm rin mkin ss)))"
  by (auto simp: addStudent_def addStudent_try_def Student_ctor_def findStudentIndex_none
      split: option.splits)

lemma deleteStudent_distinct:
  "distinct (map rollNo ss) \<Longrightarrow> distinct (map rollNo (snd (deleteStudent rin ss)))"
  by (auto simp: deleteStudent_def deleteStudent_try_def Let_def distinct_erase
      split: option.splits)

lemma load_loop_Inr_records:
  "load_loop ifs s acc = Inr (f', acc') \<Longrightarrow> read_records ifs s \<noteq> []"
  by (subst (asm) load_loop.simps, subst read_records.simps) (auto split: sum.splits)

lemma load_loop_records:
  "load_loop ifs s acc = Inr (f', acc') \<Longrightarrow> acc' = acc @ butlast (read_records ifs s)"
proof (induction ifs s acc rule: load_loop.induct)
  case (1 ifs s acc)
  from "1.prems" obtain i1 s1 where r: "read_Student ifs s = Inr (i1, s1)"
    by (subst (asm) load_loop.simps) (auto split: sum.splits)
  show ?case
  proof (cases "fail i1")
    case True
    with r "1.prems" have "acc' = acc" by (subst (asm) load_loop.simps) simp
    moreover from r True have "read_records ifs s = [s1]"
      by (subst read_records.simps) simp
    ultimately show ?thesis by simp
  next
    case False
    with r "1.prems" have l: "load_loop i1 s1 (acc @ [s1]) = Inr (f', acc')"
      by (subst (asm) load_loop.simps) simp
    from "1.IH" [OF r refl False l]
    have "acc' = (acc @ [s1]) @ butlast (read_records i1 s1)" .
    moreover from r False have "read_records ifs s = s1 # read_records i1 s1"
      by (subst read_records.simps) simp
    moreover have "read_records i1 s1 \<noteq> []" by (rule load_loop_Inr_records [OF l])
    ultimately show ?thesis by simp
  qed
qed

lemma loadFromFile_kept:
  "snd (loadFromFile (Some contents) ss) = []
   \<or> snd (loadFromFile (Some contents) ss) = ss @ butlast (file_records contents)"
proof (cases "load_loop (ifstream contents) \<lparr>name = [], rollNo = 0, marks = 0\<rparr> ss")
  case (Inl e)
  then show ?thesis by (simp add: loadFromFile_def loadFromFile_try_def)
next
  case (Inr res)
  obtain f' ss' where res: "res = (f', ss')" by (cases res)
  from load_loop_records [of "ifstream contents" _ ss f' ss'] Inr res
  have "ss' = ss @ butlast (file_records contents)" by (simp add: file_records_def)
  with Inr res show ?thesis by (simp add: loadFromFile_def loadFromFile_try_def)
qed

lemma distinct_append_butlast:
  "distinct (map f (xs @ ys)) \<Longrightarrow> distinct (map f (xs @ butlast ys))"
proof -
  assume d: "distinct (map f (xs @ ys))"
  have "map f (xs @ butlast ys) = take (length xs + (length ys - 1)) (map f (xs @ ys))"
    by (simp add: butlast_conv_take take_map)
  with d show ?thesis by (simp only: distinct_take)
qed

lemma loadFromFile_distinct:
  "no_rollNo_twice f ss \<Longrightarrow> distinct (map rollNo ss) \<Longrightarrow>
     distinct (map rollNo (snd (loadFromFile f ss)))"
proof (cases f)
  case None
  assume "distinct (map rollNo ss)"
  with None show ?thesis by (simp add: loadFromFile_def)
next
  case (Some contents)
  assume "no_rollNo_twice f ss"
  with Some have "distinct (map rollNo (ss @ file_records contents))"
    by (simp add: no_rollNo_twice_def)
  from distinct_append_butlast [OF this] loadFromFile_kept [of contents ss] Some
  show ?thesis by auto
qed

lemma load_example_distinct:
  "file_records ''A\<newline>1\<newline>50\<newline>B\<newline>2\<newline>60\<newline>C\<newline>3\<newline>70''
     = [\<lparr>name = ''A'', rollNo = 1, marks = 50\<rparr>, \<lparr>name = ''B'', rollNo = 2, marks = 60\<rparr>,
        \<lparr>name = ''C'', rollNo = 3, marks = 70\<rparr>]"
  "loadFromFile (Some ''A\<newline>1\<newline>50\<newline>B\<newline>2\<newline>60\<newline>C\<newline>3\<newline>70'') []
     = (''Data loaded successfully. 2 records found.'',
        [\<lparr>name = ''A'', rollNo = 1, marks = 50\<rparr>, \<lparr>name = ''B'', rollNo = 2, marks = 60\<rparr>])"
  by code_simp+

lemma marks_token_examples:
  "snd (extract_float (ifstream ''100.01'') 0) = 13108511 / 131072"
  "snd (extract_float (ifstream ''-0.01'') 0) = - (5368709 / 536870912)"
  by code_simp+

section \<open>The claims about the record store\<close>

text \<open>
  Claim C6. With a name, a roll number and marks read from the console, \<open>addStudent\<close>
  reports an error exactly when the name is empty, the roll number is negative, the
  marks are below 0 or above 100 (0 and 100 themselves are accepted), or a record
  with that roll number is in the store; otherwise it appends the new record at the
  end of the vector and leaves the records before it as they were.
\<close>

theorem addStudent_validation:
  "(reports_error (fst (addStudent nm (Some r) (Some m) students))
      \<longleftrightarrow> nm = [] \<or> r < 0 \<or> m < 0 \<or> 100 < m \<or> r \<in> rollNo ` set students)
   \<and> (\<not> (nm = [] \<or> r < 0 \<or> m < 0 \<or> 100 < m \<or> r \<in> rollNo ` set students) \<longrightarrow>
        addStudent nm (Some r) (Some m) students
          = (''Student added successfully!'',
             students @ [\<lparr>name = nm, rollNo = r, marks = m\<rparr>]))"
  by (simp add: addStudent_cases reports_error_def)

theorem addStudent_validation_witness:
  "addStudent ''Bob'' (Some 2) (Some 100) [\<lparr>name = ''Alice'', rollNo = 1, marks = 885 / 10\<rparr>]
     = (''Student added successfully!'',
        [\<lparr>name = ''Alice'', rollNo = 1, marks = 885 / 10\<rparr>,
         \<lparr>name = ''Bob'', rollNo = 2, marks = 100\<rparr>])
   \<and> addStudent ''Bob'' (Some 0) (Some 0) []
     = (''Student added successfully!'', [\<lparr>name = ''Bob'', rollNo = 0, marks = 0\<rparr>])
   \<and> reports_error (fst (addStudent ''Bob'' (Some 2) (Some (- (1 / 100))) []))
   \<and> reports_error (fst (addStudent ''Bob'' (Some 2) (Some (10001 / 100))  []))
   \<and> reports_error (fst (addStudent ''Bob'' (Some 1) (Some 42)
        [\<lparr>name = ''Alice'', rollNo = 1, marks = 885 / 10\<rparr>]))
   \<and> reports_error (fst (addStudent ''Bob'' (Some (- 1)) (Some 42) []))
   \<and> reports_error (fst (addStudent [] (Some 2) (Some 42) []))
   \<and> reports_error (fst (addStudent ''Bob'' (Some 2)
        (Some (snd (extract_float (ifstream ''100.01'') 0))) []))
   \<and> reports_error (fst (addStudent ''Bob'' (Some 2)
        (Some (snd (extract_float (ifstream ''-0.01'') 0))) []))"
  using addStudent_validation [of "''Bob''" 2 100 "[\<lparr>name = ''Alice'', rollNo = 1, marks = 885 / 10\<rparr>]"]
    addStudent_validation [of "''Bob''" 0 0 "[]"]
    addStudent_validation [of "''Bob''" 2 "- (1 / 100)" "[]"]
    addStudent_validation [of "''Bob''" 2 "10001 / 100" "[]"]
    addStudent_validation [of "''Bob''" 1 42 "[\<lparr>name = ''Alice'', rollNo = 1, marks = 885 / 10\<rparr>]"]
    addStudent_validation [of "''Bob''" "- 1" 42 "[]"]
    addStudent_validation [of "[]" 2 42 "[]"]
    addStudent_validation [of "''Bob''" 2 "13108511 / 131072" "[]"]
    addStudent_validation [of "''Bob''" 2 "- (5368709 / 536870912)" "[]"]
  by (simp add: marks_token_examples)

text \<open>
  Claim C5. Whatever the console input, when \<open>addStudent\<close> or \<open>updateStudent\<close>
  reports an error the vector is the one it was before: no exception leaves a block
  after a mutation. An add with a roll number already in the store is such an error,
  so the number of records is unchanged.
\<close>

theorem failed_add_update_leave_store:
  "(reports_error (fst (addStudent nm rin mkin students)) \<longrightarrow>
      snd (addStudent nm rin mkin students) = students)
   \<and> (reports_error (fst (updateStudent rin nm mkin students)) \<longrightarrow>
      snd (updateStudent rin nm mkin students) = students)
   \<and> (r \<in> rollNo ` set students \<longrightarrow>
      reports_error (fst (addStudent nm (Some r) mkin students))
      \<and> snd (addStudent nm (Some r) mkin students) = students
      \<and> length (snd (addStudent nm (Some r) mkin students)) = length students)"
proof -
  have dup: "reports_error (fst (addStudent nm (Some r) mkin students))"
    if "r \<in> rollNo ` set students"
    using that
    by (auto simp: addStudent_def addStudent_try_def findStudentIndex_none reports_error_def
        split: option.splits)
  show ?thesis
    using dup addStudent_error_unchanged [of nm "Some r" mkin students]
      addStudent_error_unchanged [of nm rin mkin students]
      updateStudent_error_unchanged [of rin nm mkin students]
    by simp
qed

theorem failed_add_update_leave_store_witness:
  "reports_error (fst (addStudent ''Bob'' (Some 1) (Some 42)
        [\<lparr>name = ''Alice'', rollNo = 1, marks = 885 / 10\<rparr>]))
   \<and> snd (addStudent ''Bob'' (Some 1) (Some 42)
        [\<lparr>name = ''Alice'', rollNo = 1, marks = 885 / 10\<rparr>])
       = [\<lparr>name = ''Alice'', rollNo = 1, marks = 885 / 10\<rparr>]
   \<and> reports_error (fst (updateStudent (Some 1) ''Al'' (Some 101)
        [\<lparr>name = ''Alice'', rollNo = 1, marks = 885 / 10\<rparr>]))
   \<and> snd (updateStudent (Some 1) ''Al'' (Some 101)
        [\<lparr>name = ''Alice'', rollNo = 1, marks = 885 / 10\<rparr>])
       = [\<lparr>name = ''Alice'', rollNo = 1, marks = 885 / 10\<rparr>]"
proof -
  have a: "reports_error (fst (addStudent ''Bob'' (Some 1) (Some 42)
        [\<lparr>name = ''Alice'', rollNo = 1, marks = 885 / 10\<rparr>]))"
    by (simp add: addStudent_cases reports_error_def)
  have u: "reports_error (fst (updateStudent (Some 1) ''Al'' (Some 101)
        [\<lparr>name = ''Alice'', rollNo = 1, marks = 885 / 10\<rparr>]))"
    by (simp add: updateStudent_cases reports_error_def)
  show ?thesis
    using a u
      failed_add_update_leave_store [of "''Bob''" "Some 1" "Some 42"
        "[\<lparr>name = ''Alice'', rollNo = 1, marks = 885 / 10\<rparr>]" 1]
      failed_add_update_leave_store [of "''Al''" "Some 1" "Some 101"
        "[\<lparr>name = ''Alice'', rollNo = 1, marks = 885 / 10\<rparr>]" 1]
    by blast
qed

text \<open>
  Claim C7. \<open>updateStudent\<close> reports \<open>Student not found\<close> when no record has the roll
  number. Otherwise the new name and marks pass the checks of \<open>addStudent\<close> (name not
  empty, marks in [0,100]) or an error is reported; on success the first record with
  that roll number gets the new name and marks, keeps its roll number, and every other
  position of the vector is unchanged. No call changes any roll number.
\<close>

theorem updateStudent_frame:
  "(r \<notin> rollNo ` set students \<longrightarrow>
      updateStudent (Some r) nm mkin students = (''Error: Student not found'', students))
   \<and> (r \<in> rollNo ` set students \<longrightarrow>
        (reports_error (fst (updateStudent (Some r) nm (Some m) students))
           \<longleftrightarrow> nm = [] \<or> m < 0 \<or> 100 < m)
      \<and> (nm \<noteq> [] \<and> 0 \<le> m \<and> m \<le> 100 \<longrightarrow>
           (\<exists>i < length students.
              rollNo (students ! i) = r \<and> (\<forall>k < i. rollNo (students ! k) \<noteq> r)
              \<and> updateStudent (Some r) nm (Some m) students
                  = (''Student details updated successfully!'',
                     students[i := \<lparr>name = nm, rollNo = rollNo (students ! i), marks = m\<rparr>]))))
   \<and> map rollNo (snd (updateStudent rin nm mkin students)) = map rollNo students"
proof -
  have nf: "updateStudent (Some r) nm mkin students = (''Error: Student not found'', students)"
    if "r \<notin> rollNo ` set students"
    using that
    by (simp add: updateStudent_def updateStudent_try_def findStudentIndex_none Let_def)
  have err: "reports_error (fst (updateStudent (Some r) nm (Some m) students))
           \<longleftrightarrow> nm = [] \<or> m < 0 \<or> 100 < m"
    if "r \<in> rollNo ` set students"
    using that by (simp add: updateStudent_cases reports_error_def)
  have ok: "\<exists>i < length students.
              rollNo (students ! i) = r \<and> (\<forall>k < i. rollNo (students ! k) \<noteq> r)
              \<and> updateStudent (Some r) nm (Some m) students
                  = (''Student details updated successfully!'',
                     students[i := \<lparr>name = nm, rollNo = rollNo (students ! i), marks = m\<rparr>])"
    if mem: "r \<in> rollNo ` set students" and v: "nm \<noteq> []" "0 \<le> m" "m \<le> 100"
  proof -
    let ?i = "nat (findStudentIndex students r)"
    have lt: "?i < length students" using findStudentIndex_range [OF mem] by simp
    have hit: "rollNo (students ! ?i) = r" by (rule findStudentIndex_hit [OF mem])
    have first: "\<forall>k < ?i. rollNo (students ! k) \<noteq> r"
      using findStudentIndex_first [OF mem] by blast
    have "(students ! ?i)\<lparr>name := nm, marks := m\<rparr>
        = \<lparr>name = nm, rollNo = rollNo (students ! ?i), marks = m\<rparr>"
      by (cases "students ! ?i") simp
    then have "updateStudent (Some r) nm (Some m) students
        = (''Student details updated successfully!'',
           students[?i := \<lparr>name = nm, rollNo = rollNo (students ! ?i), marks = m\<rparr>])"
      using mem v by (simp only: updateStudent_cases) simp
    with lt hit first show ?thesis by blast
  qed
  show ?thesis
    using nf err ok updateStudent_rollNo [of rin nm mkin students] by blast
qed

theorem updateStudent_frame_witness:
  "updateStudent (Some 2) ''Robert'' (Some 60)
      [\<lparr>name = ''Alice'', rollNo = 1, marks = 885 / 10\<rparr>,
       \<lparr>name = ''Bob'', rollNo = 2, marks = 42\<rparr>]
     = (''Student details updated successfully!'',
        [\<lparr>name = ''Alice'', rollNo = 1, marks = 885 / 10\<rparr>,
         \<lparr>name = ''Robert'', rollNo = 2, marks = 60\<rparr>])
   \<and> updateStudent (Some 3) ''Robert'' (Some 60)
      [\<lparr>name = ''Alice'', rollNo = 1, marks = 885 / 10\<rparr>,
       \<lparr>name = ''Bob'', rollNo = 2, marks = 42\<rparr>]
     = (''Error: Student not found'',
        [\<lparr>name = ''Alice'', rollNo = 1, marks = 885 / 10\<rparr>,
         \<lparr>name = ''Bob'', rollNo = 2, marks = 42\<rparr>])"
proof -
  let ?ss = "[\<lparr>name = ''Alice'', rollNo = 1, marks = 885 / 10\<rparr>,
       \<lparr>name = ''Bob'', rollNo = 2, marks = 42\<rparr>]"
  have mem: "2 \<in> rollNo ` set ?ss" and valid: "''Robert'' \<noteq> [] \<and> (0::rat) \<le> 60 \<and> (60::rat) \<le> 100"
    by simp_all
  from updateStudent_frame [of 2 ?ss "''Robert''" "Some 60" 60 "Some 2"] mem valid
  obtain i where i: "i < length ?ss" "rollNo (?ss ! i) = 2"
    and upd: "updateStudent (Some 2) ''Robert'' (Some 60) ?ss
       = (''Student details updated successfully!'',
          ?ss[i := \<lparr>name = ''Robert'', rollNo = rollNo (?ss ! i), marks = 60\<rparr>])"
    by blast
  from i have "i = 1" by (cases i) auto
  with upd have "updateStudent (Some 2) ''Robert'' (Some 60) ?ss
     = (''Student details updated successfully!'',
        [\<lparr>name = ''Alice'', rollNo = 1, marks = 885 / 10\<rparr>,
         \<lparr>name = ''Robert'', rollNo = 2, marks = 60\<rparr>])"
    by simp
  moreover have "updateStudent (Some 3) ''Robert'' (Some 60) ?ss
     = (''Error: Student not found'', ?ss)"
    using updateStudent_frame [of 3 ?ss "''Robert''" "Some 60" 60 "Some 3"] by simp
  ultimately show ?thesis by simp
qed

text \<open>
  Claim C10. For a non-empty name, a roll number \<open>\<ge> 0\<close> that is not in the store and
  marks in [0,100], \<open>addStudent\<close> succeeds and a search for the roll number in the
  resulting store shows a record with exactly the name, roll number and marks added.
\<close>

theorem add_then_search:
  "nm \<noteq> [] \<Longrightarrow> 0 \<le> r \<Longrightarrow> 0 \<le> m \<Longrightarrow> m \<le> 100 \<Longrightarrow> r \<notin> rollNo ` set students \<Longrightarrow>
     fst (addStudent nm (Some r) (Some m) students) = ''Student added successfully!''
     \<and> searchStudent (Some r) (snd (addStudent nm (Some r) (Some m) students))
       = Inr \<lparr>name = nm, rollNo = r, marks = m\<rparr>"
  using search_after_add [of nm r m students] by (simp add: addStudent_cases)

theorem add_then_search_witness:
  "searchStudent (Some 2) (snd (addStudent ''Bob'' (Some 2) (Some 42)
       [\<lparr>name = ''Alice'', rollNo = 1, marks = 885 / 10\<rparr>]))
     = Inr \<lparr>name = ''Bob'', rollNo = 2, marks = 42\<rparr>"
  using add_then_search [of "''Bob''" 2 42 "[\<lparr>name = ''Alice'', rollNo = 1, marks = 885 / 10\<rparr>]"]
  by simp

section \<open>The claims about the data file\<close>

text \<open>
  Claim C1 fails on the code. The store of the two records below, saved, is six lines;
  loading that file reads both records, then \<open>operator>>\<close> finds the end of the file
  where the next name should be, throws, and \<open>loadFromFile\<close> clears the vector: the
  program starts with an empty store. The empty store is saved as the empty file,
  which loads, with the same warning, as the empty store.
\<close>

theorem save_then_load_loses_records:
  "saveToFile True [\<lparr>name = ''Alice'', rollNo = 1, marks = 885 / 10\<rparr>,
                    \<lparr>name = ''Bob'', rollNo = 2, marks = 42\<rparr>]
     = Inr (''Alice\<newline>1\<newline>88.5\<newline>Bob\<newline>2\<newline>42\<newline>'', ''Data saved successfully. 2 records stored.'')
   \<and> StudentManagementSystem (Some ''Alice\<newline>1\<newline>88.5\<newline>Bob\<newline>2\<newline>42\<newline>'')
     = (''Warning: Corrupted data in file. Starting with empty database.'', [])
   \<and> saveToFile True [] = Inr ([], ''Data saved successfully. 0 records stored.'')
   \<and> StudentManagementSystem (Some [])
     = (''Warning: Corrupted data in file. Starting with empty database.'', [])"
proof -
  have "show_nat 0 = ''0''" by code_simp
  then have "saveToFile True [] = Inr ([], ''Data saved successfully. 0 records stored.'')"
    by (simp add: saveToFile_def)
  then show ?thesis
    using save_example
      loadFromFile_nl [of "''Alice\<newline>1\<newline>88.5\<newline>Bob\<newline>2\<newline>42\<newline>''" "[]"]
      loadFromFile_nl [of "[]" "[]"]
    by (simp add: StudentManagementSystem_def nl_terminated_def)
qed

text \<open>
  Claim C2, as amended. When the contents of the file are empty or end in a newline,
  as everything \<open>saveToFile\<close> writes does, \<open>loadFromFile\<close> ends in its handler:
  it prints the warning and leaves the store empty, whatever was in the vector and
  in the file. At the end of the file \<open>operator>>\<close> throws.
\<close>

theorem load_nl_terminated:
  "(nl_terminated contents \<longrightarrow>
      loadFromFile (Some contents) students
        = (''Warning: Corrupted data in file. Starting with empty database.'', []))
   \<and> nl_terminated (concat (map write_Student saved))
   \<and> read_Student (ifstream []) s = Inl ''Corrupted data in file''"
  using loadFromFile_nl [of contents students] nl_terminated_saved [of saved]
    read_Student_at_end [of s]
  by simp

theorem load_nl_terminated_witness:
  "nl_terminated ''Alice\<newline>1\<newline>88.5\<newline>Bob\<newline>2\<newline>42\<newline>''
   \<and> loadFromFile (Some ''Alice\<newline>1\<newline>88.5\<newline>Bob\<newline>2\<newline>42\<newline>'') []
       = (''Warning: Corrupted data in file. Starting with empty database.'', [])"
  using load_nl_terminated [of "''Alice\<newline>1\<newline>88.5\<newline>Bob\<newline>2\<newline>42\<newline>''" "[]" "[]"]
  by (simp add: nl_terminated_def)

text \<open>
  A file whose last line has no newline: the marks of the last record run to the end
  of the file, \<open>ignore\<close> then fails, the loop ends without an exception and without
  pushing the last record, and the records before it stay in the store.
\<close>

theorem load_unterminated_counterexample:
  "StudentManagementSystem (Some ''Alice\<newline>1\<newline>88.5\<newline>Bob\<newline>2\<newline>42'')
     = (''Data loaded successfully. 1 records found.'',
        [\<lparr>name = ''Alice'', rollNo = 1, marks = 885 / 10\<rparr>])"
  using load_example_unterminated by (simp add: StudentManagementSystem_def)

text \<open>
  Claim C3. When, after any number of records read, the next record fails to parse
  (its name line cannot be read, its roll number is not an integer, or its marks are
  not a number), \<open>loadFromFile\<close> prints the corruption warning and returns the
  empty vector: the records read so far, and those in the vector before, are
  dropped. The constructor returns with the empty store; no exception leaves it.
\<close>

theorem load_corruption:
  "records_read k (ifstream contents) \<lparr>name = [], rollNo = 0, marks = 0\<rparr> students
      = Some (ifs, s, parsed) \<Longrightarrow>
   name_unreadable ifs s \<or> rollNo_not_integer ifs s \<or> marks_not_numeric ifs s \<Longrightarrow>
     length parsed = length students + k
     \<and> loadFromFile (Some contents) students
         = (''Warning: Corrupted data in file. Starting with empty database.'', [])
     \<and> (students = [] \<longrightarrow>
          StudentManagementSystem (Some contents)
            = (''Warning: Corrupted data in file. Starting with empty database.'', []))"
proof -
  assume rr: "records_read k (ifstream contents) \<lparr>name = [], rollNo = 0, marks = 0\<rparr> students
      = Some (ifs, s, parsed)"
    and bad: "name_unreadable ifs s \<or> rollNo_not_integer ifs s \<or> marks_not_numeric ifs s"
  have "load_loop (ifstream contents) \<lparr>name = [], rollNo = 0, marks = 0\<rparr> students
      = Inl ''Corrupted data in file''"
    using records_read_load_loop [OF rr] load_loop_throws [OF bad] by simp
  then have "loadFromFile (Some contents) students
         = (''Warning: Corrupted data in file. Starting with empty database.'', [])"
    by (simp add: loadFromFile_def loadFromFile_try_def)
  with records_read_length [OF rr] show ?thesis
    by (auto simp: StudentManagementSystem_def)
qed

theorem load_corruption_witness:
  "records_read 1 (ifstream ''A\<newline>1\<newline>50\<newline>B\<newline>xyz\<newline>'') \<lparr>name = [], rollNo = 0, marks = 0\<rparr> []
     = Some (\<lparr>buf = ''B\<newline>xyz\<newline>'', eofbit = False, failbit = False, badbit = False\<rparr>,
             \<lparr>name = ''A'', rollNo = 1, marks = 50\<rparr>,
             [\<lparr>name = ''A'', rollNo = 1, marks = 50\<rparr>])
   \<and> rollNo_not_integer \<lparr>buf = ''B\<newline>xyz\<newline>'', eofbit = False, failbit = False, badbit = False\<rparr>
        \<lparr>name = ''A'', rollNo = 1, marks = 50\<rparr>
   \<and> StudentManagementSystem (Some ''A\<newline>1\<newline>50\<newline>B\<newline>xyz\<newline>'')
       = (''Warning: Corrupted data in file. Starting with empty database.'', [])"
  using load_example_bad_rollNo
    load_corruption [OF load_example_bad_rollNo(1)] 
  by simp

section \<open>The claim about the statistics\<close>

text \<open>
  Claim C9, as amended. \<open>showStatistics\<close> prints \<open>No students found!\<close> for the empty
  store. For a store that is not empty it gives the number of records, the greatest
  and the least of the marks, and as average the single-precision quotient of the
  running single-precision total by the number of records, which is infinite when
  the total has overflowed; it is the arithmetic mean whenever the partial sums, the
  count and the mean are finite single-precision values, as for the marks 50, 70,
  90.
\<close>

theorem statistics_computed:
  "showStatistics_values [] = Inl ''No students found!''
   \<and> showStatistics [] = [''No students found!'']
   \<and> (students \<noteq> [] \<longrightarrow>
        (\<exists>st. showStatistics_values students = Inr st
           \<and> total_students st = length students
           \<and> highest_marks st = Max (marks ` set students)
           \<and> lowest_marks st = Min (marks ` set students)
           \<and> average_marks st
               = fdiv (foldl fadd (Finite 0) (map marks students))
                   (size_to_float (length students))
           \<and> (exact_sums 0 (map marks students)
                \<and> representable (of_nat (length students))
                \<and> representable (sum_list (map marks students) / of_nat (length students))
              \<longrightarrow> average_marks st
                    = Finite (sum_list (map marks students) / of_nat (length students)))))"
proof -
  have "fdiv (foldl fadd (Finite 0) (map marks students)) (size_to_float (length students))
          = Finite (sum_list (map marks students) / of_nat (length students))"
    if e: "exact_sums 0 (map marks students)" and n: "representable (of_nat (length students))"
      and m: "representable (sum_list (map marks students) / of_nat (length students))"
  proof -
    have "foldl fadd (Finite 0) (map marks students) = Finite (sum_list (map marks students))"
      using foldl_fadd_exact [OF e] by simp
    moreover have "size_to_float (length students) = of_nat (length students)"
      using n by (simp add: size_to_float_def representable_def)
    ultimately show ?thesis by (simp add: to_float_representable [OF m])
  qed
  then show ?thesis
    by (simp add: showStatistics_values_nonempty)
       (simp add: showStatistics_def showStatistics_values_def)
qed

theorem statistics_computed_witness:
  "showStatistics_values
      [\<lparr>name = ''A'', rollNo = 1, marks = 50\<rparr>, \<lparr>name = ''B'', rollNo = 2, marks = 70\<rparr>,
       \<lparr>name = ''C'', rollNo = 3, marks = 90\<rparr>]
     = Inr \<lparr>total_students = 3, average_marks = Finite 70, highest_marks = 90,
            lowest_marks = 50\<rparr>
   \<and> showStatistics
      [\<lparr>name = ''A'', rollNo = 1, marks = 50\<rparr>, \<lparr>name = ''B'', rollNo = 2, marks = 70\<rparr>,
       \<lparr>name = ''C'', rollNo = 3, marks = 90\<rparr>]
     = [[], ''--- Statistics ---'', ''Total Students: 3'', ''Average Marks: 70.00'',
        ''Highest Marks: 90.00'', ''Lowest Marks: 50.00'']"
proof -
  let ?ss = "[\<lparr>name = ''A'', rollNo = 1, marks = 50\<rparr>, \<lparr>name = ''B'', rollNo = 2, marks = 70\<rparr>,
       \<lparr>name = ''C'', rollNo = 3, marks = 90\<rparr>]"
  have ex: "exact_sums 0 (map marks ?ss)" "representable (of_nat (length ?ss))"
      "representable (sum_list (map marks ?ss) / of_nat (length ?ss))"
    using representable_examples by simp_all
  have ne: "?ss \<noteq> []" by simp
  from statistics_computed [of ?ss, THEN conjunct2, THEN conjunct2, rule_format, OF ne]
  obtain st where st: "showStatistics_values ?ss = Inr st" "total_students st = length ?ss"
    "highest_marks st = Max (marks ` set ?ss)" "lowest_marks st = Min (marks ` set ?ss)"
    and avg: "exact_sums 0 (map marks ?ss) \<and> representable (of_nat (length ?ss))
        \<and> representable (sum_list (map marks ?ss) / of_nat (length ?ss))
      \<longrightarrow> average_marks st = Finite (sum_list (map marks ?ss) / of_nat (length ?ss))"
    by blast
  from avg ex have "average_marks st = Finite (sum_list (map marks ?ss) / of_nat (length ?ss))"
    by blast
  with st have v: "showStatistics_values ?ss
     = Inr \<lparr>total_students = 3, average_marks = Finite 70, highest_marks = 90,
            lowest_marks = 50\<rparr>"
    by (cases st) simp
  have "show_nat 3 = ''3''" "show_fixed 2 70 = ''70.00''" "show_fixed 2 90 = ''90.00''"
    "show_fixed 2 50 = ''50.00''"
    by code_simp+
  with v show ?thesis by (simp add: showStatistics_def)
qed

text \<open>
  The marks 100 and \<open>10485 / 2^20\<close> (the float read from \<open>0.0099992752\<close>) are
  single-precision values in [0,100]. Their sum lies between two floats and rounds up
  to \<open>13108511 / 2^17\<close>, so the average computed is \<open>50.005001...\<close>, printed as
  \<open>50.01\<close>; the arithmetic mean is \<open>50.004999...\<close>, which to two decimals is
  \<open>50.00\<close>.
\<close>

theorem statistics_mean_counterexample:
  "snd (extract_float (ifstream ''0.0099992752'') 0) = 10485 / 1048576
   \<and> showStatistics_values
       [\<lparr>name = ''A'', rollNo = 1, marks = 100\<rparr>,
        \<lparr>name = ''B'', rollNo = 2, marks = 10485 / 1048576\<rparr>]
     = Inr \<lparr>total_students = 2, average_marks = Finite (13108511 / 262144),
            highest_marks = 100,
            lowest_marks = 10485 / 1048576\<rparr>
   \<and> showStatistics
       [\<lparr>name = ''A'', rollNo = 1, marks = 100\<rparr>,
        \<lparr>name = ''B'', rollNo = 2, marks = 10485 / 1048576\<rparr>]
     = [[], ''--- Statistics ---'', ''Total Students: 2'', ''Average Marks: 50.01'',
        ''Highest Marks: 100.00'', ''Lowest Marks: 0.01'']
   \<and> (100 + 10485 / 1048576) / 2 \<noteq> (13108511 / 262144 :: rat)
   \<and> show_fixed 2 ((100 + 10485 / 1048576) / 2) = ''50.00''
   \<and> representable 100 \<and> representable (10485 / 1048576)"
  by code_simp

text \<open>
  The marks \<open>3e38\<close> can be loaded from a file. The total of two such records
  overflows, and the average printed is \<open>inf\<close>.
\<close>

lemma statistics_overflow_example:
  "snd (loadFromFile (Some ''A\<newline>1\<newline>3e38\<newline>B\<newline>2\<newline>3e38\<newline>C\<newline>3\<newline>0'') [])
     = [\<lparr>name = ''A'', rollNo = 1, marks = 300000000549775575777803994281145270272\<rparr>,
        \<lparr>name = ''B'', rollNo = 2, marks = 300000000549775575777803994281145270272\<rparr>]
   \<and> showStatistics
       [\<lparr>name = ''A'', rollNo = 1, marks = 300000000549775575777803994281145270272\<rparr>,
        \<lparr>name = ''B'', rollNo = 2, marks = 300000000549775575777803994281145270272\<rparr>]
     = [[], ''--- Statistics ---'', ''Total Students: 2'', ''Average Marks: inf'',
        ''Highest Marks: 300000000549775575777803994281145270272.00'',
        ''Lowest Marks: 300000000549775575777803994281145270272.00'']
   \<and> \<not> exact_sums 0 [300000000549775575777803994281145270272,
                        300000000549775575777803994281145270272]"
  by code_simp

section \<open>The claims about uniqueness and deletion\<close>

text \<open>
  Claim C4, as amended. From any store with at most one record per roll number,
  \<open>addStudent\<close>, \<open>updateStudent\<close> and \<open>deleteStudent\<close> give such a store again,
  whatever the console input, and so does \<open>loadFromFile\<close> when no roll number occurs
  twice among the records of the store and those of the file. Hence every store
  reached from the empty one by these operations, with such files, has at most one
  record per roll number.
\<close>

theorem rollNo_unique_invariant:
  "(distinct (map rollNo ss) \<longrightarrow>
        distinct (map rollNo (snd (addStudent nm rin mkin ss)))
      \<and> distinct (map rollNo (snd (updateStudent rin nm mkin ss)))
      \<and> distinct (map rollNo (snd (deleteStudent rin ss)))
      \<and> (no_rollNo_twice f ss \<longrightarrow> distinct (map rollNo (snd (loadFromFile f ss)))))
   \<and> (reachable_with no_rollNo_twice st \<longrightarrow> distinct (map rollNo st))"
proof -
  have "distinct (map rollNo st)" if "reachable_with no_rollNo_twice st"
    using that
  proof (induction rule: reachable_with.induct)
    case start
    show ?case by simp
  next
    case (load ss f)
    then show ?case by (simp add: loadFromFile_distinct)
  next
    case (add ss nm rin mkin)
    then show ?case by (simp add: addStudent_distinct)
  next
    case (update ss rin nm mkin)
    then show ?case by (simp add: updateStudent_rollNo)
  next
    case (delete ss rin)
    then show ?case by (simp add: deleteStudent_distinct)
  qed
  then show ?thesis
    by (simp add: addStudent_distinct updateStudent_rollNo deleteStudent_distinct
        loadFromFile_distinct)
qed

lemma reachable_example:
  "reachable_with no_rollNo_twice
     [\<lparr>name = ''A'', rollNo = 1, marks = 50\<rparr>, \<lparr>name = ''B'', rollNo = 2, marks = 60\<rparr>,
      \<lparr>name = ''Dan'', rollNo = 4, marks = 42\<rparr>]"
proof -
  let ?P = no_rollNo_twice
  have l: "?P (Some ''A\<newline>1\<newline>50\<newline>B\<newline>2\<newline>60\<newline>C\<newline>3\<newline>70'') []"
    by (simp add: no_rollNo_twice_def load_example_distinct)
  have "reachable_with ?P
      (snd (loadFromFile (Some ''A\<newline>1\<newline>50\<newline>B\<newline>2\<newline>60\<newline>C\<newline>3\<newline>70'') []))"
    by (rule reachable_with.load [of ?P "[]", OF reachable_with.start l])
  then have "reachable_with ?P
      [\<lparr>name = ''A'', rollNo = 1, marks = 50\<rparr>, \<lparr>name = ''B'', rollNo = 2, marks = 60\<rparr>]"
    by (simp add: load_example_distinct)
  from reachable_with.add [OF this, of "''Dan''" "Some 4" "Some 42"]
  show ?thesis by (simp add: addStudent_cases)
qed

theorem rollNo_unique_invariant_witness:
  "no_rollNo_twice (Some ''A\<newline>1\<newline>50\<newline>B\<newline>2\<newline>60\<newline>C\<newline>3\<newline>70'') []
   \<and> snd (loadFromFile (Some ''A\<newline>1\<newline>50\<newline>B\<newline>2\<newline>60\<newline>C\<newline>3\<newline>70'') [])
       = [\<lparr>name = ''A'', rollNo = 1, marks = 50\<rparr>, \<lparr>name = ''B'', rollNo = 2, marks = 60\<rparr>]
   \<and> reachable_with no_rollNo_twice
     [\<lparr>name = ''A'', rollNo = 1, marks = 50\<rparr>, \<lparr>name = ''B'', rollNo = 2, marks = 60\<rparr>,
      \<lparr>name = ''Dan'', rollNo = 4, marks = 42\<rparr>]
   \<and> distinct (map rollNo
     [\<lparr>name = ''A'', rollNo = 1, marks = 50\<rparr>, \<lparr>name = ''B'', rollNo = 2, marks = 60\<rparr>,
      \<lparr>name = ''Dan'', rollNo = 4, marks = 42\<rparr>])"
proof -
  have l: "no_rollNo_twice (Some ''A\<newline>1\<newline>50\<newline>B\<newline>2\<newline>60\<newline>C\<newline>3\<newline>70'') []"
    by (simp add: no_rollNo_twice_def load_example_distinct)
  from rollNo_unique_invariant
    [of "[]" "''Dan''" "Some 4" "Some 42"
      "Some ''A\<newline>1\<newline>50\<newline>B\<newline>2\<newline>60\<newline>C\<newline>3\<newline>70''"
      "[\<lparr>name = ''A'', rollNo = 1, marks = 50\<rparr>, \<lparr>name = ''B'', rollNo = 2, marks = 60\<rparr>,
        \<lparr>name = ''Dan'', rollNo = 4, marks = 42\<rparr>]"]
    reachable_example l
  show ?thesis by (simp add: load_example_distinct)
qed

text \<open>
  \<open>loadFromFile\<close> pushes what it reads without looking for the roll number in the
  vector. A file whose last line has no newline ends the loop without an exception,
  and the records before the last stay: here two records with roll number 1.
\<close>

theorem load_duplicates_counterexample:
  "reachable_with any_file
     [\<lparr>name = ''A'', rollNo = 1, marks = 50\<rparr>, \<lparr>name = ''B'', rollNo = 1, marks = 60\<rparr>]
   \<and> \<not> distinct (map rollNo
     [\<lparr>name = ''A'', rollNo = 1, marks = 50\<rparr>, \<lparr>name = ''B'', rollNo = 1, marks = 60\<rparr>])"
proof -
  have "any_file (Some ''A\<newline>1\<newline>50\<newline>B\<newline>1\<newline>60\<newline>C\<newline>3\<newline>70'') []"
    by (simp add: any_file_def)
  from reachable_with.load [of any_file "[]", OF reachable_with.start this] show ?thesis
    by (simp add: load_example_duplicates)
qed

text \<open>
  Claim C8, as amended. \<open>deleteStudent\<close> reports \<open>Student not found\<close> and leaves the
  store as it is when no record has the roll number. Otherwise it removes the first
  record with that roll number: the records before and after it keep their order,
  and the store has one record less. A search for the roll number afterwards reports
  \<open>Student not found\<close> exactly when that record was the only one with the roll
  number, as it is in every store with distinct roll numbers.
\<close>

theorem deleteStudent_removes_first:
  "(r \<notin> rollNo ` set students \<longrightarrow>
      deleteStudent (Some r) students = (''Error: Student not found'', students))
   \<and> (r \<in> rollNo ` set students \<longrightarrow>
        (\<exists>i < length students.
           rollNo (students ! i) = r \<and> (\<forall>k < i. rollNo (students ! k) \<noteq> r)
           \<and> deleteStudent (Some r) students
               = (''Student deleted successfully!'', take i students @ drop (Suc i) students))
      \<and> Suc (length (snd (deleteStudent (Some r) students))) = length students
      \<and> ((searchStudent (Some r) (snd (deleteStudent (Some r) students))
             = Inl ''Error: Student not found'')
           \<longleftrightarrow> length (filter (\<lambda>s. rollNo s = r) students) = 1)
      \<and> (distinct (map rollNo students) \<longrightarrow>
           searchStudent (Some r) (snd (deleteStudent (Some r) students))
             = Inl ''Error: Student not found''))"
proof -
  have present: "(\<exists>i < length students.
           rollNo (students ! i) = r \<and> (\<forall>k < i. rollNo (students ! k) \<noteq> r)
           \<and> deleteStudent (Some r) students
               = (''Student deleted successfully!'', take i students @ drop (Suc i) students))
      \<and> Suc (length (snd (deleteStudent (Some r) students))) = length students"
    if mem: "r \<in> rollNo ` set students"
  proof -
    let ?i = "nat (findStudentIndex students r)"
    have lt: "?i < length students" using findStudentIndex_range [OF mem] by simp
    have hit: "rollNo (students ! ?i) = r" by (rule findStudentIndex_hit [OF mem])
    have first: "\<forall>k < ?i. rollNo (students ! k) \<noteq> r"
      using findStudentIndex_first [OF mem] by blast
    have del: "deleteStudent (Some r) students
        = (''Student deleted successfully!'', take ?i students @ drop (Suc ?i) students)"
      using mem by (simp add: deleteStudent_cases erase_def)
    have "Suc (length (snd (deleteStudent (Some r) students))) = length students"
      using length_erase [OF lt] mem by (simp add: deleteStudent_cases)
    with lt hit first del show ?thesis by blast
  qed
  have "searchStudent (Some r) (snd (deleteStudent (Some r) students))
             = Inl ''Error: Student not found''"
    if "r \<in> rollNo ` set students" "distinct (map rollNo students)"
    using that search_after_delete [of r students] distinct_filter_one [of students r] by simp
  with present search_after_delete [of r students] show ?thesis
    by (simp add: deleteStudent_cases)
qed

theorem deleteStudent_removes_first_witness:
  "deleteStudent (Some 1)
      [\<lparr>name = ''Alice'', rollNo = 1, marks = 885 / 10\<rparr>, \<lparr>name = ''Bob'', rollNo = 2, marks = 42\<rparr>]
     = (''Student deleted successfully!'', [\<lparr>name = ''Bob'', rollNo = 2, marks = 42\<rparr>])
   \<and> searchStudent (Some 1) (snd (deleteStudent (Some 1)
        [\<lparr>name = ''Alice'', rollNo = 1, marks = 885 / 10\<rparr>, \<lparr>name = ''Bob'', rollNo = 2, marks = 42\<rparr>]))
     = Inl ''Error: Student not found''
   \<and> deleteStudent (Some 3)
      [\<lparr>name = ''Alice'', rollNo = 1, marks = 885 / 10\<rparr>, \<lparr>name = ''Bob'', rollNo = 2, marks = 42\<rparr>]
     = (''Error: Student not found'',
        [\<lparr>name = ''Alice'', rollNo = 1, marks = 885 / 10\<rparr>, \<lparr>name = ''Bob'', rollNo = 2, marks = 42\<rparr>])"
proof -
  let ?ss = "[\<lparr>name = ''Alice'', rollNo = 1, marks = 885 / 10\<rparr>, \<lparr>name = ''Bob'', rollNo = 2, marks = 42\<rparr>]"
  have mem: "1 \<in> rollNo ` set ?ss" and d: "distinct (map rollNo ?ss)" and nm: "3 \<notin> rollNo ` set ?ss"
    by simp_all
  from deleteStudent_removes_first [of 1 ?ss] mem d
  obtain i where i: "i < length ?ss" "rollNo (?ss ! i) = 1"
    and del: "deleteStudent (Some 1) ?ss
       = (''Student deleted successfully!'', take i ?ss @ drop (Suc i) ?ss)"
    and srch: "searchStudent (Some 1) (snd (deleteStudent (Some 1) ?ss))
       = Inl ''Error: Student not found''"
    by blast
  from i have "i = 0" by (cases i) auto
  with del have "deleteStudent (Some 1) ?ss
     = (''Student deleted successfully!'', [\<lparr>name = ''Bob'', rollNo = 2, marks = 42\<rparr>])"
    by simp
  moreover from deleteStudent_removes_first [of 3 ?ss] nm
  have "deleteStudent (Some 3) ?ss = (''Error: Student not found'', ?ss)" by blast
  ultimately show ?thesis using srch by simp
qed

text \<open>
  The store loaded from the file above has two records with roll number 1; after
  deleting roll number 1 a search for it finds the second.
\<close>

theorem delete_duplicate_counterexample:
  "snd (StudentManagementSystem (Some ''A\<newline>1\<newline>50\<newline>B\<newline>1\<newline>60\<newline>C\<newline>3\<newline>70''))
     = [\<lparr>name = ''A'', rollNo = 1, marks = 50\<rparr>, \<lparr>name = ''B'', rollNo = 1, marks = 60\<rparr>]
   \<and> deleteStudent (Some 1)
        [\<lparr>name = ''A'', rollNo = 1, marks = 50\<rparr>, \<lparr>name = ''B'', rollNo = 1, marks = 60\<rparr>]
     = (''Student deleted successfully!'', [\<lparr>name = ''B'', rollNo = 1, marks = 60\<rparr>])
   \<and> searchStudent (Some 1) (snd (deleteStudent (Some 1)
        [\<lparr>name = ''A'', rollNo = 1, marks = 50\<rparr>, \<lparr>name = ''B'', rollNo = 1, marks = 60\<rparr>]))
     = Inr \<lparr>name = ''B'', rollNo = 1, marks = 60\<rparr>"
  using load_example_duplicates
  by (simp add: StudentManagementSystem_def deleteStudent_cases searchStudent_cases
      findStudentIndex_def erase_def)

end
